theory Spec2Isabelle
  imports Complex_Main "HOL-Library.Sublist" "HOL-Library.Log_Nat"
begin

section \<open>Data model\<close>

text \<open>
  \<^verbatim>\<open>src/index.js\<close> holds three variants of one chat bot. The first (lines 1-191) keeps a
  flat history array per thread in \<^verbatim>\<open>threadHistory\<close>; the second (lines 192-507) keeps a chat
  session object per thread and copies its history into \<^verbatim>\<open>persistedHistory\<close>; of the third
  (lines 509-836) only \<^verbatim>\<open>getReplyAction\<close> is needed here.

  JavaScript strings are modelled as \<^typ>\<open>string\<close>, numbers that hold probabilities and
  random draws as the \<^typ>\<open>real\<close> values of doubles, with the rounding of double
  arithmetic, counts and lengths as \<^typ>\<open>nat\<close>. Objects used as dictionaries are maps.
  Time (the pacing delays of \<^verbatim>\<open>setTimeout\<close>) and the diagnostic output of \<^verbatim>\<open>console.log\<close>
  are left out; writes of the history file are taken to succeed.
\<close>

type_synonym thread_id = string
type_synonym user_id = string
type_synonym message_id = string

datatype role = User | Model

record turn =
  role :: role
  parts :: "string list"

datatype error = Error (message: string)

datatype attachment_type = Photo | Video | File | Audio | Sticker | Share | Unrecognized

record attachment =
  atype :: attachment_type
  caption :: "string option"
  name :: string
  title :: "string option"

text \<open>The task object built by the listener of the first variant (lines 171-177).\<close>

record task =
  senderID :: user_id
  threadID :: thread_id
  messageID :: message_id
  body :: string
  attachments :: "attachment list"

text \<open>The platform event handed to \<^verbatim>\<open>processMessage\<close> in the second variant.\<close>

record event = task +
  etype :: string
  senderName :: "string option"

text \<open>
  Every call that leaves the process is recorded, in the order in which it is issued:
  the calls to the language model and the calls to the messaging platform.
\<close>

datatype call =
    GenerateContent string "turn list"
  | ChatSendMessage thread_id string
  | SetMessageReaction string message_id
  | SendMessage string thread_id
  | SendTaggedMessage string thread_id user_id string
  | SendTypingIndicator thread_id

fun is_platform_call :: "call \<Rightarrow> bool" where
  "is_platform_call (GenerateContent m cs) = False"
| "is_platform_call (ChatSendMessage t m) = False"
| "is_platform_call (SetMessageReaction r m) = True"
| "is_platform_call (SendMessage m t) = True"
| "is_platform_call (SendTaggedMessage m t u n) = True"
| "is_platform_call (SendTypingIndicator t) = True"

fun is_classifier_call :: "call \<Rightarrow> bool" where
  "is_classifier_call (GenerateContent m cs) = (m = ''gemini-1.5-flash-latest'')"
| "is_classifier_call c = False"

text \<open>What both variants share of the process state: the history file and the calls made.\<close>

record io =
  snapshot :: "thread_id \<rightharpoonup> turn list"
  calls :: "call list"

section \<open>String helpers of JavaScript\<close>

text \<open>
  A string is the sequence of its UTF-8 bytes. A case mapping rewrites the ASCII letters
  and the characters of the given table, which lists every character outside ASCII whose
  mapping contains an ASCII character; all other bytes are kept. So the result agrees with
  JavaScript on every byte that is ASCII, which is what a comparison with an ASCII text
  and the filter \<^verbatim>\<open>\w\<close> read; a bot name with letters outside ASCII is outside the model.
  The first argument bounds the number of steps; the length of the string is enough.
\<close>

definition toLowerCase_char :: "char \<Rightarrow> char" where
  "toLowerCase_char c =
     (let n = (of_char c :: nat) in if 65 \<le> n \<and> n \<le> 90 then char_of (n + 32) else c)"

definition toUpperCase_char :: "char \<Rightarrow> char" where
  "toUpperCase_char c =
     (let n = (of_char c :: nat) in if 97 \<le> n \<and> n \<le> 122 then char_of (n - 32) else c)"

fun map_case :: "(string \<times> string) list \<Rightarrow> (char \<Rightarrow> char) \<Rightarrow> nat \<Rightarrow> string \<Rightarrow> string" where
  "map_case special f 0 s = s"
| "map_case special f (Suc n) [] = []"
| "map_case special f (Suc n) (c # cs) =
     (case find (\<lambda>(src, dst). prefix src (c # cs)) special of
        Some (src, dst) \<Rightarrow> dst @ map_case special f n (drop (length src) (c # cs))
      | None \<Rightarrow> f c # map_case special f n cs)"

text \<open>U+0130 and U+212A (the Kelvin sign).\<close>

definition lower_special :: "(string \<times> string) list" where
  "lower_special =
     [([CHR 0xC4, CHR 0xB0], [CHR ''i'', CHR 0xCC, CHR 0x87]),
      ([CHR 0xE2, CHR 0x84, CHR 0xAA], ''k'')]"

text \<open>
  U+00DF, U+0131, U+0149, U+017F, U+01F0, U+1E96 to U+1E9A and the ligatures U+FB00 to
  U+FB06.
\<close>

definition upper_special :: "(string \<times> string) list" where
  "upper_special =
     [([CHR 0xC3, CHR 0x9F], ''SS''),
      ([CHR 0xC4, CHR 0xB1], ''I''),
      ([CHR 0xC5, CHR 0x89], [CHR 0xCA, CHR 0xBC, CHR ''N'']),
      ([CHR 0xC5, CHR 0xBF], ''S''),
      ([CHR 0xC7, CHR 0xB0], [CHR ''J'', CHR 0xCC, CHR 0x8C]),
      ([CHR 0xE1, CHR 0xBA, CHR 0x96], [CHR ''H'', CHR 0xCC, CHR 0xB1]),
      ([CHR 0xE1, CHR 0xBA, CHR 0x97], [CHR ''T'', CHR 0xCC, CHR 0x88]),
      ([CHR 0xE1, CHR 0xBA, CHR 0x98], [CHR ''W'', CHR 0xCC, CHR 0x8A]),
      ([CHR 0xE1, CHR 0xBA, CHR 0x99], [CHR ''Y'', CHR 0xCC, CHR 0x8A]),
      ([CHR 0xE1, CHR 0xBA, CHR 0x9A], [CHR ''A'', CHR 0xCA, CHR 0xBE]),
      ([CHR 0xEF, CHR 0xAC, CHR 0x80], ''FF''),
      ([CHR 0xEF, CHR 0xAC, CHR 0x81], ''FI''),
      ([CHR 0xEF, CHR 0xAC, CHR 0x82], ''FL''),
      ([CHR 0xEF, CHR 0xAC, CHR 0x83], ''FFI''),
      ([CHR 0xEF, CHR 0xAC, CHR 0x84], ''FFL''),
      ([CHR 0xEF, CHR 0xAC, CHR 0x85], ''ST''),
      ([CHR 0xEF, CHR 0xAC, CHR 0x86], ''ST'')]"

definition toLowerCase :: "string \<Rightarrow> string" where
  "toLowerCase s = map_case lower_special toLowerCase_char (length s) s"

definition toUpperCase :: "string \<Rightarrow> string" where
  "toUpperCase s = map_case upper_special toUpperCase_char (length s) s"

text \<open>
  The white space and line terminators that \<^verbatim>\<open>trim\<close> strips: U+0009 to U+000D, U+0020,
  U+00A0, U+1680, U+2000 to U+200A, U+2028, U+2029, U+202F, U+205F, U+3000 and U+FEFF.
\<close>

definition white_space :: "string list" where
  "white_space =
     [[CHR 0x09], [CHR 0x0A], [CHR 0x0B], [CHR 0x0C], [CHR 0x0D], [CHR 0x20],
      [CHR 0xC2, CHR 0xA0], [CHR 0xE1, CHR 0x9A, CHR 0x80],
      [CHR 0xE2, CHR 0x80, CHR 0x80], [CHR 0xE2, CHR 0x80, CHR 0x81],
      [CHR 0xE2, CHR 0x80, CHR 0x82], [CHR 0xE2, CHR 0x80, CHR 0x83],
      [CHR 0xE2, CHR 0x80, CHR 0x84], [CHR 0xE2, CHR 0x80, CHR 0x85],
      [CHR 0xE2, CHR 0x80, CHR 0x86], [CHR 0xE2, CHR 0x80, CHR 0x87],
      [CHR 0xE2, CHR 0x80, CHR 0x88], [CHR 0xE2, CHR 0x80, CHR 0x89],
      [CHR 0xE2, CHR 0x80, CHR 0x8A], [CHR 0xE2, CHR 0x80, CHR 0xA8],
      [CHR 0xE2, CHR 0x80, CHR 0xA9], [CHR 0xE2, CHR 0x80, CHR 0xAF],
      [CHR 0xE2, CHR 0x81, CHR 0x9F], [CHR 0xE3, CHR 0x80, CHR 0x80],
      [CHR 0xEF, CHR 0xBB, CHR 0xBF]]"

fun trimStart :: "nat \<Rightarrow> string \<Rightarrow> string" where
  "trimStart 0 s = s"
| "trimStart (Suc n) s =
     (case find (\<lambda>w. prefix w s) white_space of
        Some w \<Rightarrow> trimStart n (drop (length w) s)
      | None \<Rightarrow> s)"

fun trimEnd :: "nat \<Rightarrow> string \<Rightarrow> string" where
  "trimEnd 0 s = s"
| "trimEnd (Suc n) s =
     (case find (\<lambda>w. suffix w s) white_space of
        Some w \<Rightarrow> trimEnd n (take (length s - length w) s)
      | None \<Rightarrow> s)"

definition trim :: "string \<Rightarrow> string" where
  "trim s = trimEnd (length s) (trimStart (length s) s)"

text \<open>\<^verbatim>\<open>s.includes(sub)\<close>: \<open>sub\<close> occurs in \<open>s\<close> as a contiguous piece.\<close>

fun str_includes :: "string \<Rightarrow> string \<Rightarrow> bool" where
  "str_includes [] sub = (sub = [])"
| "str_includes (c # cs) sub = (prefix sub (c # cs) \<or> str_includes cs sub)"

text \<open>The class \<^verbatim>\<open>\w\<close> of a regular expression: letters, digits and the underscore.\<close>

definition is_word_char :: "char \<Rightarrow> bool" where
  "is_word_char c =
     (let n = (of_char c :: nat) in
        (48 \<le> n \<and> n \<le> 57) \<or> (65 \<le> n \<and> n \<le> 90) \<or> n = 95 \<or> (97 \<le> n \<and> n \<le> 122))"

section \<open>Numbers of JavaScript\<close>

text \<open>
  A number is a finite IEEE 754 double, modelled by its exact value. \<open>double_of_real\<close>
  rounds a real to the nearest double, ties to the even significand; it gives the double
  that a decimal literal denotes, and the result of an arithmetic operation is the rounded
  exact result. An overflow to \<^verbatim>\<open>Infinity\<close> is represented by \<open>2 ^ 1024\<close>, which compares
  with every finite double as \<^verbatim>\<open>Infinity\<close> does. Comparisons are exact.
\<close>

definition pow2 :: "int \<Rightarrow> real" where
  "pow2 k = (if 0 \<le> k then 2 ^ nat k else 1 / 2 ^ nat (- k))"

text \<open>
  The exponent \<open>e\<close> with \<open>2 ^ e \<le> x < 2 ^ (e + 1)\<close> of a positive \<open>x\<close>, read from the
  number of bits of the integer part of \<open>x\<close> or of \<open>1 / x\<close>.
\<close>

definition binary_exponent :: "real \<Rightarrow> int" where
  "binary_exponent x =
     (if 1 \<le> x then bitlen \<lfloor>x\<rfloor> - 1
      else (let e = - bitlen \<lfloor>1 / x\<rfloor> in if pow2 (e + 1) \<le> x then e + 1 else e))"

definition round_half_even :: "real \<Rightarrow> int" where
  "round_half_even q =
     (let f = \<lfloor>q\<rfloor>; d = q - of_int f in
      if d < 1 / 2 then f else if 1 / 2 < d then f + 1 else if even f then f else f + 1)"

definition double_of_real :: "real \<Rightarrow> real" where
  "double_of_real x =
     (if x = 0 then 0
      else
        (let a = \<bar>x\<bar>;
             e = max (binary_exponent a) (- 1022);
             ulp = pow2 (e - 52);
             y = of_int (round_half_even (a / ulp)) * ulp
         in sgn x * min y (pow2 1024)))"

definition double_add :: "real \<Rightarrow> real \<Rightarrow> real" where
  "double_add a b = double_of_real (a + b)"

definition double_mult :: "real \<Rightarrow> real \<Rightarrow> real" where
  "double_mult a b = double_of_real (a * b)"

section \<open>Arrays\<close>

text \<open>\<^verbatim>\<open>xs.splice(i, 0, x)\<close> for \<open>0 \<le> i \<le> length xs\<close>.\<close>

definition splice_insert :: "'a list \<Rightarrow> nat \<Rightarrow> 'a \<Rightarrow> 'a list" where
  "splice_insert xs i x = take i xs @ [x] @ drop i xs"

section \<open>First variant: \<^verbatim>\<open>processMessageWithGemini\<close>\<close>

record config1 =
  ADMIN_UIDS :: "user_id list"
  RESPONSE_PROBABILITY :: real
  CONTEXT_WINDOW :: nat
  GEMINI_MODEL_NAME :: string

text \<open>
  The queue of a thread is the list of its pending tasks; \<^verbatim>\<open>createThreadQueue\<close> returns an
  empty one.
\<close>

record state1 = io +
  threadHistory :: "thread_id \<rightharpoonup> turn list"
  threadQueues :: "thread_id \<rightharpoonup> task list"

text \<open>
  What the world answers while one task is processed: the random draws and the results of
  the awaited calls, an error being a rejected promise.
\<close>

record outcomes1 =
  gate_draw :: real
  filter_result :: "error + string option"
  reaction_draw :: real
  reaction_result :: "error + unit"
  gemini_result :: "error + string option"
  send_result :: "error + unit"

definition saveHistory1 :: "state1 \<Rightarrow> state1" where
  "saveHistory1 st = st\<lparr>snapshot := threadHistory st\<rparr>"

definition record_call :: "call \<Rightarrow> ('a io_scheme) \<Rightarrow> ('a io_scheme)" where
  "record_call c st = st\<lparr>calls := calls st @ [c]\<rparr>"

definition user_turn :: "string \<Rightarrow> turn" where
  "user_turn txt = \<lparr>role = User, parts = [txt]\<rparr>"

definition model_turn :: "string \<Rightarrow> turn" where
  "model_turn txt = \<lparr>role = Model, parts = [txt]\<rparr>"

text \<open>Lines 120-121: push the user's turn, then drop the first two turns when over the cap.\<close>

definition appendAndTrim :: "nat \<Rightarrow> turn list \<Rightarrow> turn \<Rightarrow> turn list" where
  "appendAndTrim window history t =
     (let h = history @ [t] in if length h > window * 2 then drop 2 h else h)"

text \<open>Lines 124-131: the two repairs that run before the history is sent to the model.\<close>

definition repairUser :: "turn list \<Rightarrow> turn list" where
  "repairUser h =
     (if length h > 1 \<and> role (h ! (length h - 1)) = User \<and> role (h ! (length h - 2)) = User
      then splice_insert h (length h - 2) (model_turn ''...'')
      else h)"

definition repairModel :: "turn list \<Rightarrow> turn list" where
  "repairModel h =
     (if length h > 1 \<and> role (h ! (length h - 1)) = Model \<and> role (h ! (length h - 2)) = Model
      then splice_insert h (length h - 1) (user_turn ''...'')
      else h)"

definition repairAlternation :: "turn list \<Rightarrow> turn list" where
  "repairAlternation h = repairModel (repairUser h)"

text \<open>No two neighbouring turns have the same role.\<close>

fun alternates :: "turn list \<Rightarrow> bool" where
  "alternates (a # b # rest) = (role a \<noteq> role b \<and> alternates (b # rest))"
| "alternates [a] = True"
| "alternates [] = True"

text \<open>Line 107: the verdict read from the filter's answer.\<close>

definition filterAction :: "string option \<Rightarrow> string" where
  "filterAction txt =
     filter is_word_char
       (case txt of
          None \<Rightarrow> ''IGNORE''
        | Some t \<Rightarrow> (let u = toUpperCase (trim t) in if u = [] then ''IGNORE'' else u))"

text \<open>Line 113: the six strings, byte for byte as the source file holds them.\<close>

definition reactions1 :: "string list" where
  "reactions1 =
     [[CHR 0xC3, CHR 0xB0, CHR 0xC5, CHR 0xB8, CHR 0xE2, CHR 0x80, CHR 0x98],
      [CHR 0xC3, CHR 0xA2, CHR 0xC2, CHR 0xA4, CHR 0xC3, CHR 0xAF, CHR 0xC2, CHR 0xB8],
      [CHR 0xC3, CHR 0xB0, CHR 0xC5, CHR 0xB8, CHR 0xCB, CHR 0x9C, CHR 0xE2, CHR 0x80, CHR 0x9A],
      [CHR 0xC3, CHR 0xB0, CHR 0xC5, CHR 0xB8, CHR 0xCB, CHR 0x9C, CHR 0xC2, CHR 0xAE],
      [CHR 0xC3, CHR 0xB0, CHR 0xC5, CHR 0xB8, CHR 0xCB, CHR 0x9C, CHR 0xC2, CHR 0xA2],
      [CHR 0xC3, CHR 0xB0, CHR 0xC5, CHR 0xB8, CHR 0xCB, CHR 0x9C, CHR 0xC2, CHR 0xA1]]"

text \<open>\<^verbatim>\<open>xs[Math.floor(r * xs.length)]\<close>; an index out of range reads \<^verbatim>\<open>undefined\<close>.\<close>

definition pick :: "string list \<Rightarrow> real \<Rightarrow> string" where
  "pick xs r =
     (let i = nat \<lfloor>double_mult r (real (length xs))\<rfloor> in
      if i < length xs then xs ! i else ''undefined'')"

text \<open>Lines 146-153: the handler of the \<^verbatim>\<open>try\<close> block.\<close>

definition catchGemini :: "thread_id \<Rightarrow> error \<Rightarrow> state1 \<Rightarrow> state1" where
  "catchGemini historyKey err st =
     (if str_includes (toLowerCase (message err)) ''block''
      then saveHistory1 (st\<lparr>threadHistory := (threadHistory st)(historyKey := None)\<rparr>)
      else st)"

definition filterPrompt1 :: "thread_id \<Rightarrow> string \<Rightarrow> string" where
  "filterPrompt1 tid userInput =
     ''Thread Name: '' @ tid @ [CHR 0x0A] @ ''User Message: '' @ userInput @ [CHR 0x0A] @
     ''Should the bot respond, react, or ignore? Respond with only one word: ''
     @ [CHR 0x22] @ ''MESSAGE'' @ [CHR 0x22] @ '', '' @ [CHR 0x22] @ ''REACTION'' @ [CHR 0x22]
     @ '', or '' @ [CHR 0x22] @ ''IGNORE'' @ [CHR 0x22] @ ''.''"

definition history_of :: "state1 \<Rightarrow> thread_id \<Rightarrow> turn list" where
  "history_of st k = (case threadHistory st k of None \<Rightarrow> [] | Some h \<Rightarrow> h)"

definition set_history :: "thread_id \<Rightarrow> turn list \<Rightarrow> state1 \<Rightarrow> state1" where
  "set_history k h st = st\<lparr>threadHistory := (threadHistory st)(k \<mapsto> h)\<rparr>"

text \<open>Lines 119-145: the branch of the verdict \<^verbatim>\<open>MESSAGE\<close>.\<close>

definition messageBranch :: "config1 \<Rightarrow> outcomes1 \<Rightarrow> task \<Rightarrow> string \<Rightarrow> state1 \<Rightarrow> state1" where
  "messageBranch cfg oc t userInput st =
     (let k = threadID t;
          h = repairAlternation (appendAndTrim (CONTEXT_WINDOW cfg) (history_of st k) (user_turn userInput));
          st1 = record_call (GenerateContent (GEMINI_MODEL_NAME cfg) h) (set_history k h st)
      in case gemini_result oc of
           Inl err \<Rightarrow> catchGemini k err st1
         | Inr None \<Rightarrow> st1
         | Inr (Some geminiText) \<Rightarrow>
             if geminiText = [] then st1
             else
               (let st2 = saveHistory1 (set_history k (h @ [model_turn geminiText]) st1);
                    st3 = record_call (SendMessage geminiText k) st2
                in case send_result oc of Inl err \<Rightarrow> catchGemini k err st3 | Inr u \<Rightarrow> st3))"

text \<open>Lines 73-154.\<close>

definition processMessageWithGemini :: "config1 \<Rightarrow> outcomes1 \<Rightarrow> task \<Rightarrow> state1 \<Rightarrow> state1" where
  "processMessageWithGemini cfg oc t st =
     (let isAdmin = (senderID t \<in> set (ADMIN_UIDS cfg)) in
      if isAdmin \<and> trim (body t) = ''!history reset''
      then saveHistory1 (st\<lparr>threadHistory := (threadHistory st)(threadID t := None)\<rparr>)
      else if gate_draw oc > RESPONSE_PROBABILITY cfg then st
      else
        (let k = threadID t;
             st1 = (case threadQueues st k of
                      None \<Rightarrow> st\<lparr>threadQueues := (threadQueues st)(k \<mapsto> [])\<rparr>
                    | Some q \<Rightarrow> st);
             st2 = (case threadHistory st1 k of None \<Rightarrow> set_history k [] st1 | Some h \<Rightarrow> st1);
             userInput = (if body t = [] then ''User sent an attachment.'' else body t);
             st3 = record_call
                     (GenerateContent ''gemini-1.5-flash-latest'' [user_turn (filterPrompt1 k userInput)])
                     st2
         in case filter_result oc of
              Inl err \<Rightarrow> catchGemini k err st3
            | Inr txt \<Rightarrow>
                (let action = filterAction txt in
                 if action = ''IGNORE'' then st3
                 else if action = ''REACTION'' then
                   (let st4 = record_call
                                (SetMessageReaction (pick reactions1 (reaction_draw oc)) (messageID t)) st3
                    in case reaction_result oc of Inl err \<Rightarrow> catchGemini k err st4 | Inr u \<Rightarrow> st4)
                 else if action = ''MESSAGE'' then messageBranch cfg oc t userInput st3
                 else st3)))"

section \<open>The queue worker\<close>

text \<open>
  A computation that may raise: it returns the new state together with either the error
  that escaped it or its result.
\<close>

type_synonym ('s, 'a) js = "'s \<Rightarrow> (error + 'a) \<times> 's"

text \<open>
  \<^verbatim>\<open>try { block } catch (err) { handler } finally { finalizer }\<close>. The finalizer runs on every
  path; an error raised by the handler or by the finalizer escapes.
\<close>

definition try_catch_finally ::
  "('s, unit) js \<Rightarrow> (error \<Rightarrow> ('s, unit) js) \<Rightarrow> ('s, unit) js \<Rightarrow> ('s, unit) js" where
  "try_catch_finally block handler finalizer s =
     (case block s of
        (Inr u, s1) \<Rightarrow> finalizer s1
      | (Inl err, s1) \<Rightarrow>
          (case handler err s1 of
             (Inr u, s2) \<Rightarrow> finalizer s2
           | (Inl err2, s2) \<Rightarrow>
               (case finalizer s2 of
                  (Inr u, s3) \<Rightarrow> (Inl err2, s3)
                | (Inl err3, s3) \<Rightarrow> (Inl err3, s3))))"

text \<open>
  The state a worker runs in: the state of the bot, the lines written by
  \<^verbatim>\<open>console.error\<close>, and how often the completion callback of the queue has been invoked.
\<close>

record 'st worker_state =
  bot :: 'st
  console_error :: "string list"
  callbacks :: nat

definition in_bot :: "('st, unit) js \<Rightarrow> ('st worker_state, unit) js" where
  "in_bot f ws = (case f (bot ws) of (r, st) \<Rightarrow> (r, ws\<lparr>bot := st\<rparr>))"

definition log_error :: "string \<Rightarrow> ('st worker_state, unit) js" where
  "log_error line ws = (Inr (), ws\<lparr>console_error := console_error ws @ [line]\<rparr>)"

text \<open>
  The library \<^verbatim>\<open>async\<close> is not part of the repository. Both workers are declared
  \<^verbatim>\<open>async (task, callback) => ...\<close>, and two behaviours of \<^verbatim>\<open>async.queue\<close> towards such a
  worker are covered. Either the queue passes its completion callback as the second
  argument and runs the next task once it has been invoked; then a worker whose promise is
  rejected is an unhandled rejection and ends the process. Or, as the library documents
  for \<^verbatim>\<open>async\<close> functions, the queue passes no callback and takes the settling of the
  worker's promise as the completion, a rejection being passed as error to the callback
  given to \<^verbatim>\<open>push\<close>; then \<^verbatim>\<open>callback\<close> is \<^verbatim>\<open>undefined\<close> in the worker and using it raises.
\<close>

datatype library = PassesCallback | AwaitsPromise

text \<open>\<^verbatim>\<open>callback()\<close> of line 307, and \<^verbatim>\<open>setTimeout(callback, getRandomDelay())\<close> of line 66.\<close>

definition callback :: "library \<Rightarrow> ('st worker_state, unit) js" where
  "callback lib ws =
     (case lib of
        PassesCallback \<Rightarrow> (Inr (), ws\<lparr>callbacks := callbacks ws + 1\<rparr>)
      | AwaitsPromise \<Rightarrow> (Inl (Error ''callback is not a function''), ws))"

text \<open>
  Lines 57-68, the worker of \<^verbatim>\<open>createThreadQueue\<close>; \<open>process\<close> stands for
  \<^verbatim>\<open>processMessageWithGemini\<close> and may raise any error.
\<close>

definition createThreadQueue_worker ::
  "library \<Rightarrow> ('a task_scheme \<Rightarrow> ('st, unit) js) \<Rightarrow> 'a task_scheme \<Rightarrow> ('st worker_state, unit) js" where
  "createThreadQueue_worker lib process t =
     try_catch_finally
       (in_bot (process t))
       (\<lambda>err. log_error (''Error processing message in thread '' @ threadID t @ '': '' @ message err))
       (callback lib)"

text \<open>
  Lines 301-309, the worker of \<^verbatim>\<open>getThreadQueue\<close>; \<open>process\<close> stands for the call
  \<^verbatim>\<open>processMessage(api, event)\<close> inside the \<^verbatim>\<open>try\<close> block, whatever it raises (the name
  \<^verbatim>\<open>api\<close> is bound by the login callback only, so the call itself may raise).
\<close>

definition getThreadQueue_worker ::
  "library \<Rightarrow> thread_id \<Rightarrow> ('task \<Rightarrow> ('st, unit) js) \<Rightarrow> 'task \<Rightarrow> ('st worker_state, unit) js" where
  "getThreadQueue_worker lib tid process ev =
     try_catch_finally
       (in_bot (process ev))
       (\<lambda>err. log_error (''[Queue Worker Error - Thread '' @ tid @ '']: '' @ message err))
       (callback lib)"

text \<open>
  What the callback given to \<^verbatim>\<open>push\<close> writes for an error: nothing in the first variant
  (line 181 gives no callback), one line in the second (lines 496-500).
\<close>

definition push_callback1 :: "thread_id \<Rightarrow> error \<Rightarrow> string list" where
  "push_callback1 tid err = []"

definition push_callback2 :: "thread_id \<Rightarrow> error \<Rightarrow> string list" where
  "push_callback2 tid err = [''[Queue Error - Push] Thread '' @ tid @ '': '' @ message err]"

text \<open>
  The queues of \<^verbatim>\<open>async.queue(worker, 1)\<close>, one per thread, each the list of its pending
  tasks. \<open>started\<close> lists the tasks handed to a worker so far; \<open>stalled\<close> holds the threads
  whose worker returned without completing its task, so that their queue never hands out
  another one; \<open>crashed\<close> says that an unhandled rejection has ended the process.
\<close>

record ('task, 'st) dispatcher =
  queues :: "thread_id \<rightharpoonup> 'task list"
  started :: "'task list"
  workers :: "'st worker_state"
  stalled :: "thread_id list"
  crashed :: bool

text \<open>Lines 179-181 and 495-496: get or create the queue of the thread, push the task.\<close>

definition enqueue :: "thread_id \<Rightarrow> 'task \<Rightarrow> ('task, 'st) dispatcher \<Rightarrow> ('task, 'st) dispatcher" where
  "enqueue tid t d =
     d\<lparr>queues := (queues d)(tid \<mapsto> (case queues d tid of None \<Rightarrow> [] | Some q \<Rightarrow> q) @ [t])\<rparr>"

text \<open>
  The queue of a thread hands its oldest pending task to the worker and reads how the
  worker completed it.
\<close>

definition run_next ::
  "library \<Rightarrow> (thread_id \<Rightarrow> error \<Rightarrow> string list)
     \<Rightarrow> (thread_id \<Rightarrow> 'task \<Rightarrow> ('st worker_state, unit) js) \<Rightarrow> thread_id
     \<Rightarrow> ('task, 'st) dispatcher \<Rightarrow> ('task, 'st) dispatcher" where
  "run_next lib push_callback worker tid d =
     (if crashed d \<or> tid \<in> set (stalled d) then d
      else case queues d tid of
             None \<Rightarrow> d
           | Some [] \<Rightarrow> d
           | Some (t # rest) \<Rightarrow>
               (case worker tid t (workers d) of
                  (r, ws) \<Rightarrow>
                    (let d1 = d\<lparr>queues := (queues d)(tid \<mapsto> rest), started := started d @ [t],
                                 workers := ws\<rparr>
                     in case lib of
                          PassesCallback \<Rightarrow>
                            (case r of
                               Inl err \<Rightarrow> d1\<lparr>crashed := True\<rparr>
                             | Inr u \<Rightarrow>
                                 if callbacks ws = callbacks (workers d)
                                 then d1\<lparr>stalled := tid # stalled d\<rparr>
                                 else d1)
                        | AwaitsPromise \<Rightarrow>
                            (case r of
                               Inl err \<Rightarrow>
                                 d1\<lparr>workers :=
                                      ws\<lparr>console_error := console_error ws @ push_callback tid err\<rparr>\<rparr>
                             | Inr u \<Rightarrow> d1))))"

text \<open>The queues take turns in any order: a schedule names the thread that runs next.\<close>

fun run_schedule ::
  "library \<Rightarrow> (thread_id \<Rightarrow> error \<Rightarrow> string list)
     \<Rightarrow> (thread_id \<Rightarrow> 'task \<Rightarrow> ('st worker_state, unit) js) \<Rightarrow> thread_id list
     \<Rightarrow> ('task, 'st) dispatcher \<Rightarrow> ('task, 'st) dispatcher" where
  "run_schedule lib push_callback worker [] d = d"
| "run_schedule lib push_callback worker (tid # tids) d =
     run_schedule lib push_callback worker tids (run_next lib push_callback worker tid d)"

section \<open>Second variant: \<^verbatim>\<open>processMessage\<close>\<close>

record config2 =
  BOT_NAME :: string
  SYSTEM_PROMPT :: string
  REACTIONS :: "string list"
  PROBABILITIES_REPLY :: real
  PROBABILITIES_REACT :: real
  PERSISTENCE_ENABLED :: bool
  currentUserID :: user_id

text \<open>
  The SDK is not part of the repository. A chat session is modelled by the history it
  holds: \<^verbatim>\<open>startChat\<close> begins with the history it is given, a \<^verbatim>\<open>sendMessage\<close> that resolves
  appends the user's turn and the model's answer, and one that is rejected leaves the
  history as it was.
\<close>

record state2 = io +
  chatSessions :: "thread_id \<rightharpoonup> turn list"
  persistedHistory :: "thread_id \<rightharpoonup> turn list"

text \<open>
  What the world answers while one event is processed. The chat call is rejected with an
  error, or resolves to a response whose text may be missing; \<open>chat_rejects_early\<close> says
  that a rejection arrives before the typing indicator of line 412 has been sent.
\<close>

record outcomes2 =
  filter_answer :: "error + string"
  action_draw :: real
  reaction_pick :: real
  chat_answer :: "error + string option"
  chat_rejects_early :: bool
  tag_draw :: real

datatype action = MESSAGE | REACTION | IGNORE

text \<open>Lines 241-249.\<close>

definition saveHistory2 :: "config2 \<Rightarrow> state2 \<Rightarrow> state2" where
  "saveHistory2 cfg st = (if PERSISTENCE_ENABLED cfg then st\<lparr>snapshot := persistedHistory st\<rparr> else st)"

text \<open>Lines 251-261.\<close>

definition getChatSession :: "thread_id \<Rightarrow> state2 \<Rightarrow> state2" where
  "getChatSession tid st =
     (case chatSessions st tid of
        Some chat \<Rightarrow> st
      | None \<Rightarrow>
          st\<lparr>chatSessions :=
               (chatSessions st)(tid \<mapsto> (case persistedHistory st tid of None \<Rightarrow> [] | Some h \<Rightarrow> h))\<rparr>)"

definition chat_history :: "state2 \<Rightarrow> thread_id \<Rightarrow> turn list" where
  "chat_history st tid = (case chatSessions st tid of None \<Rightarrow> [] | Some h \<Rightarrow> h)"

definition answer_turn :: "string option \<Rightarrow> turn" where
  "answer_turn txt = \<lparr>role = Model, parts = (case txt of None \<Rightarrow> [] | Some t \<Rightarrow> [t])\<rparr>"

definition chat_sendMessage ::
  "outcomes2 \<Rightarrow> thread_id \<Rightarrow> string \<Rightarrow> (state2, string option) js" where
  "chat_sendMessage oc tid msg st =
     (let st1 = record_call (ChatSendMessage tid msg) st in
      case chat_answer oc of
        Inl err \<Rightarrow> (Inl err, st1)
      | Inr reply \<Rightarrow>
          (Inr reply,
           st1\<lparr>chatSessions :=
                 (chatSessions st1)(tid \<mapsto> chat_history st1 tid @ [user_turn msg, answer_turn reply])\<rparr>))"

text \<open>\<^verbatim>\<open>persistedHistory[threadID] = await chat.getHistory(); saveHistory();\<close>\<close>

definition persistChat :: "config2 \<Rightarrow> thread_id \<Rightarrow> state2 \<Rightarrow> state2" where
  "persistChat cfg tid st =
     saveHistory2 cfg (st\<lparr>persistedHistory := (persistedHistory st)(tid \<mapsto> chat_history st tid)\<rparr>)"

text \<open>Lines 263-274.\<close>

definition shouldBotReply :: "config2 \<Rightarrow> outcomes2 \<Rightarrow> string \<Rightarrow> state2 \<Rightarrow> bool \<times> state2" where
  "shouldBotReply cfg oc messageContent st =
     (let filterPrompt = SYSTEM_PROMPT cfg @ [CHR 0x0A, CHR 0x0A] @ ''Human Message:'' @ [CHR 0x0A]
            @ messageContent @ [CHR 0x0A, CHR 0x0A] @ ''Should the AI reply directly (Yes/No)?'';
          st1 = record_call (GenerateContent ''gemini-1.5-flash-latest'' [user_turn filterPrompt]) st
      in case filter_answer oc of
           Inl err \<Rightarrow> (False, st1)
         | Inr txt \<Rightarrow> (str_includes (toLowerCase (trim txt)) ''yes'', st1))"

text \<open>Lines 276-281.\<close>

definition getReplyAction :: "config2 \<Rightarrow> real \<Rightarrow> action" where
  "getReplyAction cfg rand =
     (if rand < PROBABILITIES_REPLY cfg then MESSAGE
      else if rand < double_add (PROBABILITIES_REPLY cfg) (PROBABILITIES_REACT cfg) then REACTION
      else IGNORE)"

text \<open>Lines 341-368: the description of the first attachment and the message text.\<close>

definition mediaDescription :: "string \<Rightarrow> string option \<Rightarrow> string" where
  "mediaDescription kind cap =
     '' (The user also sent a '' @ kind
     @ (case cap of
          None \<Rightarrow> []
        | Some c \<Rightarrow> if c = [] then [] else '' with the caption: '' @ [CHR 0x22] @ c @ [CHR 0x22])
     @ ''. Respond to the media naturally.)''"

definition fileDescription :: "string \<Rightarrow> string" where
  "fileDescription n = '' (The user sent a voice clip or file named: '' @ n @ ''. Acknowledge it.)''"

definition stickerDescription :: string where
  "stickerDescription =
     '' (The user sent a sticker. React to the sticker'' @ [CHR 0x27]
     @ ''s mood, which is generally fun/casual.)''"

definition shareDescription :: "string option \<Rightarrow> string" where
  "shareDescription ttl =
     '' (The user shared a link titled: ''
     @ (case ttl of None \<Rightarrow> ''Link'' | Some s \<Rightarrow> if s = [] then ''Link'' else s)
     @ ''. Address the link briefly.)''"

definition describeAttachments :: "attachment list \<Rightarrow> string \<Rightarrow> string \<times> string" where
  "describeAttachments atts userMessage =
     (case atts of
        [] \<Rightarrow> ([], userMessage)
      | a # others \<Rightarrow>
          (case atype a of
             Photo \<Rightarrow> (mediaDescription ''photo'' (caption a), userMessage)
           | Video \<Rightarrow> (mediaDescription ''video'' (caption a), userMessage)
           | File \<Rightarrow> (fileDescription (name a), userMessage)
           | Audio \<Rightarrow> (fileDescription (name a), userMessage)
           | Sticker \<Rightarrow>
               (stickerDescription, if userMessage = [] then ''They sent a sticker.'' else userMessage)
           | Share \<Rightarrow> (shareDescription (title a), userMessage)
           | Unrecognized \<Rightarrow> ('' (The user sent an unrecognized media attachment.)'', userMessage)))"

text \<open>
  Lines 370-383: the respond decision. The lower-cased message is searched for \<open>BOT_NAME\<close>
  as it is configured.
\<close>

definition respondDecision ::
  "config2 \<Rightarrow> outcomes2 \<Rightarrow> string \<Rightarrow> bool \<Rightarrow> string \<Rightarrow> state2 \<Rightarrow> bool \<times> state2" where
  "respondDecision cfg oc fullUserMessage hasAttachment reasoningMessage st =
     (let isExplicitlyAddressed = str_includes (toLowerCase fullUserMessage) (BOT_NAME cfg) in
      if isExplicitlyAddressed \<or> hasAttachment then (True, st)
      else shouldBotReply cfg oc reasoningMessage st)"

text \<open>Lines 391-403.\<close>

definition reactionBranch ::
  "config2 \<Rightarrow> outcomes2 \<Rightarrow> event \<Rightarrow> string \<Rightarrow> string \<Rightarrow> (state2, unit) js" where
  "reactionBranch cfg oc ev fullUserMessage attachmentDescription st =
     (let st1 = record_call
                  (SetMessageReaction (pick (REACTIONS cfg) (reaction_pick oc)) (messageID ev)) st
      in case chat_sendMessage oc (threadID ev) (fullUserMessage @ attachmentDescription) st1 of
           (Inl err, st2) \<Rightarrow> (Inr (), st2)
         | (Inr reply, st2) \<Rightarrow> (Inr (), persistChat cfg (threadID ev) st2))"

definition apology :: string where
  "apology = ''Ugh, my internet is glitching rn. Totes can'' @ [CHR 0x27] @ ''t connect!''"

text \<open>
  Lines 405-445. The chat call is started first and the typing indicator is sent within
  the second after it. \<^verbatim>\<open>Promise.all\<close> resolves after both, so a reply is sent after the
  indicator; it rejects as soon as the chat call does, so the apology is sent before the
  indicator when the rejection is early. A response without text makes
  \<^verbatim>\<open>response.text.trim()\<close> raise inside the \<^verbatim>\<open>try\<close>.
\<close>

definition replyBranch ::
  "config2 \<Rightarrow> outcomes2 \<Rightarrow> event \<Rightarrow> string \<Rightarrow> string \<Rightarrow> (state2, unit) js" where
  "replyBranch cfg oc ev fullUserMessage attachmentDescription st =
     (let tid = threadID ev;
          messageToSendToAI =
            (if fullUserMessage = [] then ''The user sent media.'' else fullUserMessage)
            @ attachmentDescription
      in case chat_sendMessage oc tid messageToSendToAI st of
           (Inl err, st1) \<Rightarrow>
             (Inr (),
              if chat_rejects_early oc
              then record_call (SendTypingIndicator tid) (record_call (SendMessage apology tid) st1)
              else record_call (SendMessage apology tid) (record_call (SendTypingIndicator tid) st1))
         | (Inr None, st1) \<Rightarrow>
             (Inr (), record_call (SendMessage apology tid) (record_call (SendTypingIndicator tid) st1))
         | (Inr (Some reply), st1) \<Rightarrow>
             (let st2 = record_call (SendTypingIndicator tid) st1;
                  aiReply = trim reply;
                  shouldTag = (tag_draw oc < double_of_real (1 / 10) \<or> tid \<noteq> senderID ev);
                  st3 = (if shouldTag
                         then record_call
                                (SendTaggedMessage aiReply tid (senderID ev)
                                   (''@'' @ (case senderName ev of
                                              None \<Rightarrow> ''Friend''
                                            | Some n \<Rightarrow> if n = [] then ''Friend'' else n)))
                                st2
                         else record_call (SendMessage aiReply tid) st2)
              in (Inr (), persistChat cfg tid st3)))"

text \<open>Lines 447-452: no \<^verbatim>\<open>try\<close> around the call, so an error of the model call escapes.\<close>

definition ignoreBranch ::
  "config2 \<Rightarrow> outcomes2 \<Rightarrow> event \<Rightarrow> string \<Rightarrow> string \<Rightarrow> (state2, unit) js" where
  "ignoreBranch cfg oc ev fullUserMessage attachmentDescription st =
     (case chat_sendMessage oc (threadID ev) (fullUserMessage @ attachmentDescription) st of
        (Inl err, st1) \<Rightarrow> (Inl err, st1)
      | (Inr reply, st1) \<Rightarrow> (Inr (), persistChat cfg (threadID ev) st1))"

text \<open>Lines 385-453: the stage reached when the respond decision is true.\<close>

definition decideAndAct ::
  "config2 \<Rightarrow> outcomes2 \<Rightarrow> event \<Rightarrow> string \<Rightarrow> string \<Rightarrow> (state2, unit) js" where
  "decideAndAct cfg oc ev fullUserMessage attachmentDescription st =
     (case getReplyAction cfg (action_draw oc) of
        REACTION \<Rightarrow> reactionBranch cfg oc ev fullUserMessage attachmentDescription st
      | MESSAGE \<Rightarrow> replyBranch cfg oc ev fullUserMessage attachmentDescription st
      | IGNORE \<Rightarrow> ignoreBranch cfg oc ev fullUserMessage attachmentDescription st)"

text \<open>Lines 326-337: the reset command of a self-addressed thread.\<close>

definition wiped_message :: string where
  "wiped_message = ''Memory for this chat wiped. Starting fresh! '' @ [CHR 0xE2, CHR 0x9C, CHR 0xA8]"

definition already_clear_message :: string where
  "already_clear_message =
     ''Memory already clear, chief. You'' @ [CHR 0x27] @ ''re good to go!''"

definition historyReset :: "config2 \<Rightarrow> thread_id \<Rightarrow> state2 \<Rightarrow> state2" where
  "historyReset cfg tid st =
     (case chatSessions st tid of
        Some chat \<Rightarrow>
          record_call (SendMessage wiped_message tid)
            (saveHistory2 cfg
               (st\<lparr>chatSessions := (chatSessions st)(tid := None),
                   persistedHistory := (persistedHistory st)(tid := None)\<rparr>))
      | None \<Rightarrow> record_call (SendMessage already_clear_message tid) st)"

text \<open>Lines 316-459.\<close>

definition processMessage :: "config2 \<Rightarrow> outcomes2 \<Rightarrow> event \<Rightarrow> (state2, unit) js" where
  "processMessage cfg oc ev st =
     (if etype ev = ''message'' \<and> senderID ev \<noteq> currentUserID cfg then
        (if toLowerCase (body ev) = ''!history reset'' \<and> threadID ev = senderID ev
         then (Inr (), historyReset cfg (threadID ev) st)
         else
           (let st1 = getChatSession (threadID ev) st;
                hasAttachment = (attachments ev \<noteq> []);
                (attachmentDescription, fullUserMessage) = describeAttachments (attachments ev) (body ev);
                reasoningMessage = fullUserMessage @ (if hasAttachment then attachmentDescription else []);
                (shouldProceed, st2) = respondDecision cfg oc fullUserMessage hasAttachment reasoningMessage st1
            in if shouldProceed then decideAndAct cfg oc ev fullUserMessage attachmentDescription st2
               else (Inr (), st2)))
      else (Inr (), st))"

section \<open>Third variant: \<^verbatim>\<open>getReplyAction\<close>\<close>

text \<open>Lines 617-628, with the two weights \<^verbatim>\<open>PROBABILITIES.MESSAGE\<close> and \<^verbatim>\<open>PROBABILITIES.REACTION\<close>.\<close>

definition getReplyAction3 :: "real \<Rightarrow> real \<Rightarrow> real \<Rightarrow> action" where
  "getReplyAction3 pMessage pReaction r =
     (let cumulative = double_add 0 pMessage in
      if r < cumulative then MESSAGE
      else (let cumulative2 = double_add cumulative pReaction in
            if r < cumulative2 then REACTION else IGNORE))"

section \<open>Concrete inputs of the first variant\<close>

definition example_config1 :: config1 where
  "example_config1 =
     \<lparr>ADMIN_UIDS = [''100''], RESPONSE_PROBABILITY = 1 / 2, CONTEXT_WINDOW = 1,
      GEMINI_MODEL_NAME = ''gemini-pro''\<rparr>"

definition initial_state1 :: state1 where
  "initial_state1 =
     \<lparr>snapshot = Map.empty, calls = [], threadHistory = Map.empty, threadQueues = Map.empty\<rparr>"

definition example_task :: "string \<Rightarrow> task" where
  "example_task b =
     \<lparr>senderID = ''7'', threadID = ''t1'', messageID = ''mid'', body = b, attachments = []\<rparr>"

text \<open>
  The filter answers \<^verbatim>\<open>MESSAGE\<close>, every call succeeds, and the model's reply is the given
  text (\<open>None\<close>: the response carries no text).
\<close>

definition reply_outcomes :: "string option \<Rightarrow> outcomes1" where
  "reply_outcomes reply =
     \<lparr>gate_draw = 1 / 4, filter_result = Inr (Some ''MESSAGE''), reaction_draw = 0,
      reaction_result = Inr (), gemini_result = Inr reply, send_result = Inr ()\<rparr>"

text \<open>
  Two messages in one thread: the model returns no text for the first, so its user turn
  stays in the history without a reply, and it answers the second.
\<close>

definition after_two_tasks :: state1 where
  "after_two_tasks =
     processMessageWithGemini example_config1 (reply_outcomes (Some ''hi'')) (example_task ''b'')
       (processMessageWithGemini example_config1 (reply_outcomes None) (example_task ''a'')
          initial_state1)"

text \<open>A third message, which the model answers as well.\<close>

definition after_three_tasks :: state1 where
  "after_three_tasks =
     processMessageWithGemini example_config1 (reply_outcomes (Some ''yo'')) (example_task ''c'')
       after_two_tasks"

text \<open>The filter answers with the given word and every call succeeds.\<close>

definition verdict_outcomes :: "string \<Rightarrow> outcomes1" where
  "verdict_outcomes word =
     \<lparr>gate_draw = 1 / 4, filter_result = Inr (Some word), reaction_draw = 0,
      reaction_result = Inr (), gemini_result = Inr (Some ''hi''), send_result = Inr ()\<rparr>"

section \<open>Concrete inputs of the second variant\<close>

text \<open>The weights \<open>0.5\<close> and \<open>0.25\<close> are doubles, and so is their sum.\<close>

definition example_config2 :: "string \<Rightarrow> config2" where
  "example_config2 botName =
     \<lparr>BOT_NAME = botName, SYSTEM_PROMPT = ''You are a friend in a group chat.'',
      REACTIONS = [''+1'', ''wow''], PROBABILITIES_REPLY = 1 / 2, PROBABILITIES_REACT = 1 / 4,
      PERSISTENCE_ENABLED = True, currentUserID = ''999''\<rparr>"

definition initial_state2 :: state2 where
  "initial_state2 =
     \<lparr>snapshot = Map.empty, calls = [], chatSessions = Map.empty, persistedHistory = Map.empty\<rparr>"

text \<open>
  The state right after a restart: \<^verbatim>\<open>loadHistory\<close> has read the history file, which holds
  one exchange of the self-addressed thread \<open>7\<close>, and no chat session exists yet.
\<close>

definition restarted_state2 :: state2 where
  "restarted_state2 =
     \<lparr>snapshot = [''7'' \<mapsto> [user_turn ''hi'', model_turn ''hello'']], calls = [],
      chatSessions = Map.empty,
      persistedHistory = [''7'' \<mapsto> [user_turn ''hi'', model_turn ''hello'']]\<rparr>"

text \<open>A message event sent by user \<open>7\<close>; the thread \<open>7\<close> is this user's self-addressed thread.\<close>

definition example_event :: "thread_id \<Rightarrow> string \<Rightarrow> attachment list \<Rightarrow> event" where
  "example_event tid b atts =
     \<lparr>senderID = ''7'', threadID = tid, messageID = ''mid'', body = b, attachments = atts,
      etype = ''message'', senderName = Some ''Ann''\<rparr>"

definition example_outcomes2 :: "error + string \<Rightarrow> real \<Rightarrow> error + string \<Rightarrow> outcomes2" where
  "example_outcomes2 verdict draw answer =
     \<lparr>filter_answer = verdict, action_draw = draw, reaction_pick = 0,
      chat_answer = (case answer of Inl err \<Rightarrow> Inl err | Inr txt \<Rightarrow> Inr (Some txt)),
      chat_rejects_early = False, tag_draw = 1 / 2\<rparr>"

text \<open>The weights \<open>0.7\<close> and \<open>0.1\<close>, whose sum as doubles is not the double \<open>0.8\<close>.\<close>

definition rounding_config2 :: config2 where
  "rounding_config2 =
     (example_config2 ''gemini'')
       \<lparr>PROBABILITIES_REPLY := double_of_real (7 / 10),
        PROBABILITIES_REACT := double_of_real (1 / 10)\<rparr>"

section \<open>Concrete inputs of the queue\<close>

text \<open>A processing function that raises on the task with body \<open>boom\<close> and counts the others.\<close>

definition failing_process :: "task \<Rightarrow> (nat, unit) js" where
  "failing_process t n = (if body t = ''boom'' then (Inl (Error ''boom''), n) else (Inr (), Suc n))"

definition example_dispatcher :: "(task, nat) dispatcher" where
  "example_dispatcher =
     enqueue ''t1'' (example_task ''ok'')
       (enqueue ''t2'' (example_task ''other'')
          (enqueue ''t1'' (example_task ''boom'')
             \<lparr>queues = Map.empty, started = [],
              workers = \<lparr>bot = 0, console_error = [], callbacks = 0\<rparr>, stalled = [],
              crashed = False\<rparr>))"

section \<open>The workers in one step\<close>

text \<open>
  What the \<^verbatim>\<open>try\<close> statement of a worker amounts to: the processing runs, one line is
  logged if it raised, and the callback is used. \<open>line1\<close> and \<open>line2\<close> are the lines that
  the handlers of lines 63 and 305 write.
\<close>

definition worker_of ::
  "library \<Rightarrow> ('task \<Rightarrow> ('st, unit) js) \<Rightarrow> (thread_id \<Rightarrow> 'task \<Rightarrow> error \<Rightarrow> string)
     \<Rightarrow> thread_id \<Rightarrow> 'task \<Rightarrow> ('st worker_state, unit) js" where
  "worker_of lib process label tid t ws =
     (case process t (bot ws) of
        (r, st) \<Rightarrow>
          callback lib
            (ws\<lparr>bot := st,
                console_error := console_error ws
                  @ (case r of Inl err \<Rightarrow> [label tid t err] | Inr u \<Rightarrow> [])\<rparr>))"

definition line1 :: "thread_id \<Rightarrow> 'a task_scheme \<Rightarrow> error \<Rightarrow> string" where
  "line1 tid t err = (''Error processing message in thread '' @ threadID t @ '': '') @ message err"

definition line2 :: "thread_id \<Rightarrow> 'task \<Rightarrow> error \<Rightarrow> string" where
  "line2 tid t err = (''[Queue Worker Error - Thread '' @ tid @ '']: '') @ message err"

section \<open>Properties of the rounding\<close>

text \<open>
  \<open>binary_exponent\<close> finds the exponent of its argument, so \<open>double_of_real\<close> rounds to a
  multiple of the right unit: a real within half a unit of a significand of 53 bits is
  rounded to it. Rounding is monotone, keeps 1, and moves a number of the unit interval by
  at most \<open>1 / 2 ^ 54\<close>.
\<close>

lemma pow2_powi: "pow2 k = 2 powi k"
  by (simp add: pow2_def power_int_def power_one_over inverse_eq_divide)

lemma pow2_pos: "0 < pow2 k"
  by (simp add: pow2_powi)

lemma pow2_add1: "pow2 (k + 1) = 2 * pow2 k"
  by (simp add: pow2_powi power_int_add_1)

lemma pow2_mono: "k \<le> l \<Longrightarrow> pow2 k \<le> pow2 l"
  by (simp add: pow2_powi power_int_increasing)

lemma pow2_strict_mono: "k < l \<Longrightarrow> pow2 k < pow2 l"
  by (simp add: pow2_powi power_int_strict_increasing)

lemma pow2_nat: "0 \<le> k \<Longrightarrow> pow2 k = 2 ^ nat k"
  by (simp add: pow2_def)

lemma pow2_neg: "0 \<le> k \<Longrightarrow> pow2 (- k) = 1 / 2 ^ nat k"
  by (cases "k = 0") (simp_all add: pow2_def)

lemma binary_exponent_bounds:
  assumes "0 < x"
  shows "pow2 (binary_exponent x) \<le> x \<and> x < pow2 (binary_exponent x + 1)"
proof (cases "1 \<le> x")
  case True
  define n where "n = \<lfloor>x\<rfloor>"
  have n: "0 < n" using True by (simp add: n_def)
  have k: "1 \<le> bitlen n" using n by (simp add: bitlen_alt_def)
  from bitlen_bounds [OF n] have lo: "2 ^ nat (bitlen n - 1) \<le> n" and hi: "n < 2 ^ nat (bitlen n)"
    by simp_all
  have e: "binary_exponent x = bitlen n - 1"
    using True by (simp add: binary_exponent_def n_def)
  have "pow2 (bitlen n - 1) = real_of_int (2 ^ nat (bitlen n - 1))"
    using k by (simp add: pow2_nat)
  also have "\<dots> \<le> real_of_int n" using lo by (simp only: of_int_le_iff)
  also have "\<dots> \<le> x" by (simp add: n_def)
  finally have 1: "pow2 (bitlen n - 1) \<le> x" .
  have "n + 1 \<le> 2 ^ nat (bitlen n)" using hi by simp
  then have "real_of_int (n + 1) \<le> real_of_int (2 ^ nat (bitlen n))"
    by (simp only: of_int_le_iff)
  moreover have "x < real_of_int (n + 1)" by (simp add: n_def)
  moreover have "pow2 (bitlen n) = real_of_int (2 ^ nat (bitlen n))"
    using k by (simp add: pow2_nat)
  ultimately have 2: "x < pow2 (bitlen n)" by linarith
  show ?thesis using 1 2 by (simp add: e)
next
  case False
  then have x1: "x < 1" by simp
  define n where "n = \<lfloor>1 / x\<rfloor>"
  have "1 < 1 / x" using assms x1 by (simp add: field_simps)
  then have n: "0 < n" by (simp add: n_def)
  define k where "k = bitlen n"
  have k: "1 \<le> k" using n by (simp add: bitlen_alt_def k_def)
  from bitlen_bounds [OF n] have lo: "2 ^ nat (k - 1) \<le> n" and hi: "n < 2 ^ nat k"
    by (simp_all add: k_def)
  have "real_of_int (2 ^ nat (k - 1)) \<le> real_of_int n" using lo by (simp only: of_int_le_iff)
  also have "\<dots> \<le> 1 / x" by (simp add: n_def)
  finally have a: "2 ^ nat (k - 1) \<le> 1 / x" by simp
  have "n + 1 \<le> 2 ^ nat k" using hi by simp
  then have "real_of_int (n + 1) \<le> real_of_int (2 ^ nat k)" by (simp only: of_int_le_iff)
  moreover have "1 / x < real_of_int (n + 1)" by (simp add: n_def)
  ultimately have b: "1 / x < 2 ^ nat k" by simp
  have up: "x \<le> pow2 (- (k - 1))"
  proof -
    have "x * 2 ^ nat (k - 1) \<le> 1" using a assms by (simp add: field_simps)
    then have "x \<le> 1 / 2 ^ nat (k - 1)" by (simp add: field_simps)
    then show ?thesis using k pow2_neg [of "k - 1"] by simp
  qed
  have low: "pow2 (- k) < x"
  proof -
    have "1 < x * 2 ^ nat k" using b assms by (simp add: field_simps)
    then have "1 / 2 ^ nat k < x" by (simp add: field_simps)
    then show ?thesis using k pow2_neg [of k] by simp
  qed
  have e: "binary_exponent x = (if pow2 (- k + 1) \<le> x then - k + 1 else - k)"
    using False by (simp add: binary_exponent_def n_def k_def Let_def)
  show ?thesis
  proof (cases "pow2 (- k + 1) \<le> x")
    case True
    then have "x = pow2 (- k + 1)" using up by simp
    then have "x < pow2 (- k + 1 + 1)" using pow2_strict_mono [of "- k + 1" "- k + 1 + 1"] by simp
    then show ?thesis using True by (simp add: e)
  next
    case False
    then show ?thesis using low by (simp add: e)
  qed
qed

lemma binary_exponent_eqI:
  assumes "pow2 e \<le> x" and "x < pow2 (e + 1)"
  shows "binary_exponent x = e"
proof -
  have x: "0 < x" using assms(1) pow2_pos [of e] by linarith
  note b = binary_exponent_bounds [OF x]
  have "\<not> binary_exponent x < e"
  proof
    assume "binary_exponent x < e"
    then have "pow2 (binary_exponent x + 1) \<le> pow2 e" by (intro pow2_mono) simp
    then show False using b assms by linarith
  qed
  moreover have "\<not> e < binary_exponent x"
  proof
    assume "e < binary_exponent x"
    then have "pow2 (e + 1) \<le> pow2 (binary_exponent x)" by (intro pow2_mono) simp
    then show False using b assms by linarith
  qed
  ultimately show ?thesis by simp
qed

lemma round_half_even_eqI:
  assumes "real_of_int m - 1 / 2 < q" and "q < real_of_int m + 1 / 2"
  shows "round_half_even q = m"
proof -
  have "\<lfloor>q\<rfloor> = m \<or> \<lfloor>q\<rfloor> = m - 1" using assms by linarith
  then show ?thesis
  proof
    assume f: "\<lfloor>q\<rfloor> = m"
    then show ?thesis using assms by (simp add: round_half_even_def Let_def)
  next
    assume f: "\<lfloor>q\<rfloor> = m - 1"
    then show ?thesis using assms by (simp add: round_half_even_def Let_def)
  qed
qed

lemma round_half_even_tie_down:
  assumes "q = real_of_int m + 1 / 2" and "even m"
  shows "round_half_even q = m"
proof -
  have "\<lfloor>q\<rfloor> = m" using assms(1) by linarith
  then show ?thesis using assms by (simp add: round_half_even_def Let_def)
qed

lemma round_half_even_tie_up:
  assumes "q = real_of_int m - 1 / 2" and "even m"
  shows "round_half_even q = m"
proof -
  have "\<lfloor>q\<rfloor> = m - 1" using assms(1) by linarith
  then show ?thesis using assms by (simp add: round_half_even_def Let_def)
qed

lemma round_half_even_error: "\<bar>real_of_int (round_half_even q) - q\<bar> \<le> 1 / 2"
  by (simp add: round_half_even_def Let_def)

lemma round_half_even_of_int: "round_half_even (real_of_int m) = m"
  by (simp add: round_half_even_def Let_def)

lemma double_of_real_eqI:
  assumes "pow2 e \<le> x" and "x < pow2 (e + 1)" and "- 1022 \<le> e" and "e < 1024"
    and "(real_of_int m - 1 / 2) * pow2 (e - 52) < x"
    and "x < (real_of_int m + 1 / 2) * pow2 (e - 52)"
  shows "double_of_real x = real_of_int m * pow2 (e - 52)"
proof -
  have x: "0 < x" using assms(1) pow2_pos [of e] by linarith
  have e: "binary_exponent x = e" using assms(1,2) by (rule binary_exponent_eqI)
  have u: "0 < pow2 (e - 52)" by (rule pow2_pos)
  have r: "round_half_even (x / pow2 (e - 52)) = m"
    using assms(5,6) u by (intro round_half_even_eqI) (simp_all add: field_simps)
  have "(real_of_int m - 1 / 2) * pow2 (e - 52) < pow2 (e + 1)" using assms(2,5) by linarith
  also have "pow2 (e + 1) = 2 ^ 53 * pow2 (e - 52)"
    by (simp add: pow2_powi power_int_diff power_int_add)
  finally have "real_of_int m - 1 / 2 < 9007199254740992" using u by simp
  then have "m \<le> 9007199254740992" by linarith
  then have "real_of_int m \<le> 9007199254740992" by linarith
  then have "real_of_int m \<le> 2 ^ 53" by simp
  then have "real_of_int m * pow2 (e - 52) \<le> 2 ^ 53 * pow2 (e - 52)" using u by simp
  also have "\<dots> = pow2 (e + 1)" by (simp add: pow2_powi power_int_diff power_int_add)
  also have "\<dots> \<le> pow2 1024" using assms(4) by (intro pow2_mono) simp
  finally have mn: "min (real_of_int m * pow2 (e - 52)) (pow2 1024) = real_of_int m * pow2 (e - 52)"
    by simp
  have mx: "max (binary_exponent x) (- 1022) = e" using e assms(3) by simp
  have "double_of_real x =
      sgn x * min (real_of_int (round_half_even (x / pow2 (e - 52))) * pow2 (e - 52)) (pow2 1024)"
    using x by (simp add: double_of_real_def Let_def mx)
  then show ?thesis using x by (simp only: r mn) simp
qed

lemma round_half_even_mono:
  assumes "p \<le> q"
  shows "round_half_even p \<le> round_half_even q"
proof (cases "\<lfloor>p\<rfloor> = \<lfloor>q\<rfloor>")
  case True
  then show ?thesis using assms by (simp add: round_half_even_def Let_def)
next
  case False
  then have "\<lfloor>p\<rfloor> < \<lfloor>q\<rfloor>" using floor_mono [OF assms] by simp
  moreover have "round_half_even p \<le> \<lfloor>p\<rfloor> + 1" by (simp add: round_half_even_def Let_def)
  moreover have "\<lfloor>q\<rfloor> \<le> round_half_even q" by (simp add: round_half_even_def Let_def)
  ultimately show ?thesis by linarith
qed

lemma binary_exponent_mono:
  assumes "0 < x" and "x \<le> y"
  shows "binary_exponent x \<le> binary_exponent y"
proof (rule ccontr)
  assume "\<not> binary_exponent x \<le> binary_exponent y"
  then have "pow2 (binary_exponent y + 1) \<le> pow2 (binary_exponent x)" by (intro pow2_mono) simp
  moreover have "pow2 (binary_exponent x) \<le> x" using binary_exponent_bounds [OF assms(1)] by simp
  moreover have "y < pow2 (binary_exponent y + 1)"
    using binary_exponent_bounds [of y] assms by simp
  ultimately show False using assms(2) by linarith
qed

lemma pow2_shift: "2 ^ n * pow2 (e - int n) = pow2 e"
  by (simp add: pow2_powi power_int_diff)

text \<open>The rounded value of a positive number, before the test for overflow.\<close>

lemma double_of_real_pos:
  "0 < x \<Longrightarrow>
   double_of_real x =
     min (real_of_int (round_half_even (x / pow2 (max (binary_exponent x) (- 1022) - 52)))
            * pow2 (max (binary_exponent x) (- 1022) - 52))
         (pow2 1024)"
  by (simp add: double_of_real_def Let_def)

lemma rounded_upper:
  assumes "0 < x"
  shows "real_of_int (round_half_even (x / pow2 (max (binary_exponent x) (- 1022) - 52)))
           * pow2 (max (binary_exponent x) (- 1022) - 52)
         \<le> pow2 (max (binary_exponent x) (- 1022) + 1)"
proof -
  define e where "e = max (binary_exponent x) (- 1022)"
  have u: "0 < pow2 (e - 52)" by (rule pow2_pos)
  have "x < pow2 (binary_exponent x + 1)" using binary_exponent_bounds [OF assms] by simp
  also have "\<dots> \<le> pow2 (e + 1)" by (intro pow2_mono) (simp add: e_def)
  also have "\<dots> = 2 ^ 53 * pow2 (e - 52)" using pow2_shift [of 53 "e + 1"] by simp
  finally have "x / pow2 (e - 52) \<le> real_of_int (2 ^ 53)" using u by (simp add: field_simps)
  from round_half_even_mono [OF this]
  have "round_half_even (x / pow2 (e - 52)) \<le> 2 ^ 53" by (simp only: round_half_even_of_int)
  then have "real_of_int (round_half_even (x / pow2 (e - 52))) \<le> real_of_int (2 ^ 53)"
    by (simp only: of_int_le_iff)
  then have "real_of_int (round_half_even (x / pow2 (e - 52))) * pow2 (e - 52)
      \<le> 2 ^ 53 * pow2 (e - 52)" using u by simp
  also have "\<dots> = pow2 (e + 1)" using pow2_shift [of 53 "e + 1"] by simp
  finally show ?thesis by (simp add: e_def)
qed

lemma rounded_lower:
  assumes "0 < x" and "- 1022 \<le> binary_exponent x"
  shows "pow2 (binary_exponent x)
         \<le> real_of_int (round_half_even (x / pow2 (binary_exponent x - 52)))
             * pow2 (binary_exponent x - 52)"
proof -
  define e where "e = binary_exponent x"
  have u: "0 < pow2 (e - 52)" by (rule pow2_pos)
  have "2 ^ 52 * pow2 (e - 52) = pow2 e" using pow2_shift [of 52 e] by simp
  also have "\<dots> \<le> x" using binary_exponent_bounds [OF assms(1)] by (simp add: e_def)
  finally have "real_of_int (2 ^ 52) \<le> x / pow2 (e - 52)" using u by (simp add: field_simps)
  from round_half_even_mono [OF this]
  have "2 ^ 52 \<le> round_half_even (x / pow2 (e - 52))" by (simp only: round_half_even_of_int)
  then have "real_of_int (2 ^ 52) \<le> real_of_int (round_half_even (x / pow2 (e - 52)))"
    by (simp only: of_int_le_iff)
  then have "2 ^ 52 * pow2 (e - 52)
      \<le> real_of_int (round_half_even (x / pow2 (e - 52))) * pow2 (e - 52)" using u by simp
  then show ?thesis using pow2_shift [of 52 e] by (simp add: e_def)
qed

lemma double_of_real_mono_pos:
  assumes "0 < x" and "x \<le> y"
  shows "double_of_real x \<le> double_of_real y"
proof -
  have y: "0 < y" using assms by simp
  define ex where "ex = max (binary_exponent x) (- 1022)"
  define ey where "ey = max (binary_exponent y) (- 1022)"
  define vx where "vx = real_of_int (round_half_even (x / pow2 (ex - 52))) * pow2 (ex - 52)"
  define vy where "vy = real_of_int (round_half_even (y / pow2 (ey - 52))) * pow2 (ey - 52)"
  have dx: "double_of_real x = min vx (pow2 1024)"
    using double_of_real_pos [OF assms(1)] by (simp add: vx_def ex_def)
  have dy: "double_of_real y = min vy (pow2 1024)"
    using double_of_real_pos [OF y] by (simp add: vy_def ey_def)
  have le: "ex \<le> ey" using binary_exponent_mono [OF assms] by (simp add: ex_def ey_def)
  have "vx \<le> vy"
  proof (cases "ex = ey")
    case True
    have u: "0 < pow2 (ey - 52)" by (rule pow2_pos)
    then have "x / pow2 (ey - 52) \<le> y / pow2 (ey - 52)" using assms(2) by (simp add: field_simps)
    from round_half_even_mono [OF this]
    have "real_of_int (round_half_even (x / pow2 (ey - 52)))
        \<le> real_of_int (round_half_even (y / pow2 (ey - 52)))" by (simp only: of_int_le_iff)
    then show ?thesis using u by (simp add: vx_def vy_def True)
  next
    case False
    then have lt: "ex < ey" using le by simp
    then have bey: "binary_exponent y = ey" and n: "- 1022 \<le> binary_exponent y"
      by (auto simp add: ex_def ey_def max_def split: if_splits)
    have "vx \<le> pow2 (ex + 1)" using rounded_upper [OF assms(1)] by (simp add: vx_def ex_def)
    also have "\<dots> \<le> pow2 ey" using lt by (intro pow2_mono) simp
    also have "\<dots> \<le> vy" using rounded_lower [OF y n] by (simp add: vy_def bey)
    finally show ?thesis .
  qed
  then show ?thesis by (simp add: dx dy min_def)
qed

lemma double_of_real_nonneg: "0 \<le> x \<Longrightarrow> 0 \<le> double_of_real x"
proof (cases "x = 0")
  case True
  then show ?thesis by (simp add: double_of_real_def)
next
  case False
  assume "0 \<le> x"
  with False have x: "0 < x" by simp
  have "0 \<le> x / pow2 (max (binary_exponent x) (- 1022) - 52)"
    using x pow2_pos [of "max (binary_exponent x) (- 1022) - 52"] by simp
  from round_half_even_mono [OF this]
  have "0 \<le> round_half_even (x / pow2 (max (binary_exponent x) (- 1022) - 52))"
    using round_half_even_of_int [of 0] by simp
  then have "0 \<le> real_of_int (round_half_even (x / pow2 (max (binary_exponent x) (- 1022) - 52)))
            * pow2 (max (binary_exponent x) (- 1022) - 52)"
    using pow2_pos [of "max (binary_exponent x) (- 1022) - 52"] by simp
  moreover have "0 \<le> pow2 1024" using pow2_pos [of 1024] by simp
  ultimately show ?thesis by (simp add: double_of_real_pos [OF x])
qed

lemma double_of_real_mono:
  assumes "0 \<le> x" and "x \<le> y"
  shows "double_of_real x \<le> double_of_real y"
proof (cases "x = 0")
  case True
  then show ?thesis using double_of_real_nonneg [of y] assms by (simp add: double_of_real_def)
next
  case False
  then show ?thesis using assms double_of_real_mono_pos [of x y] by simp
qed

lemma double_of_real_one: "double_of_real 1 = 1"
  using double_of_real_eqI [of 0 1 "2 ^ 52"] by (simp add: pow2_def)

text \<open>The rounding error of a number of the unit interval.\<close>

lemma double_of_real_error:
  assumes "0 \<le> x" and "x \<le> 1"
  shows "\<bar>double_of_real x - x\<bar> \<le> 1 / 2 ^ 54"
proof -
  consider "x = 0" | "x = 1" | "0 < x" "x < 1" using assms by linarith
  then show ?thesis
  proof cases
    case 1
    then show ?thesis by (simp add: double_of_real_def)
  next
    case 2
    then show ?thesis by (simp add: double_of_real_one)
  next
    case 3
    define e where "e = max (binary_exponent x) (- 1022)"
    define q where "q = x / pow2 (e - 52)"
    have u: "0 < pow2 (e - 52)" by (rule pow2_pos)
    have "\<not> 0 \<le> binary_exponent x"
    proof
      assume "0 \<le> binary_exponent x"
      then have "pow2 0 \<le> pow2 (binary_exponent x)" by (rule pow2_mono)
      then show False using binary_exponent_bounds [OF 3(1)] 3(2) by (simp add: pow2_def)
    qed
    then have e: "e \<le> - 1" by (simp add: e_def)
    have x: "x = q * pow2 (e - 52)" using u by (simp add: q_def)
    have "real_of_int (round_half_even q) * pow2 (e - 52) - x
        = (real_of_int (round_half_even q) - q) * pow2 (e - 52)"
      by (simp only: x [symmetric] left_diff_distrib)
    then have "\<bar>real_of_int (round_half_even q) * pow2 (e - 52) - x\<bar>
        = \<bar>real_of_int (round_half_even q) - q\<bar> * \<bar>pow2 (e - 52)\<bar>"
      by (simp only: abs_mult)
    also have "\<dots> = \<bar>real_of_int (round_half_even q) - q\<bar> * pow2 (e - 52)"
      using u by simp
    also have "\<dots> \<le> 1 / 2 * pow2 (e - 52)"
      using round_half_even_error [of q] u by (intro mult_right_mono) simp_all
    also have "\<dots> = pow2 (e - 53)" using pow2_add1 [of "e - 53"] by simp
    also have "\<dots> \<le> pow2 (- 54)" using e by (intro pow2_mono) simp
    also have "\<dots> = 1 / 2 ^ 54" by (simp add: pow2_def)
    finally have err: "\<bar>real_of_int (round_half_even q) * pow2 (e - 52) - x\<bar> \<le> 1 / 2 ^ 54" .
    have "(1 :: real) / 2 ^ 54 \<le> 1" by simp
    with err 3(2) have "real_of_int (round_half_even q) * pow2 (e - 52) \<le> 2" by linarith
    also have "\<dots> = pow2 1" by (simp add: pow2_def)
    also have "\<dots> \<le> pow2 1024" by (intro pow2_mono) simp
    finally have "double_of_real x = real_of_int (round_half_even q) * pow2 (e - 52)"
      using double_of_real_pos [OF 3(1)] by (simp add: e_def q_def)
    then show ?thesis using err by simp
  qed
qed

text \<open>The doubles that the literals and sums of the concrete inputs denote.\<close>

lemma double_0_7: "double_of_real (7 / 10) = 3152519739159347 / 2 ^ 52"
  using double_of_real_eqI [of "- 1" "7 / 10" 6305039478318694] by (simp add: pow2_def)

lemma double_0_1: "double_of_real (1 / 10) = 3602879701896397 / 2 ^ 55"
  using double_of_real_eqI [of "- 4" "1 / 10" 7205759403792794] by (simp add: pow2_def)

lemma double_sum_0_7_0_1:
  "double_add (3152519739159347 / 2 ^ 52) (3602879701896397 / 2 ^ 55) = 7205759403792793 / 2 ^ 53"
  unfolding double_add_def
  using double_of_real_eqI
    [of "- 1" "3152519739159347 / 2 ^ 52 + 3602879701896397 / 2 ^ 55" 7205759403792793]
  by (simp add: pow2_def)

lemma double_half: "double_of_real (1 / 2) = 1 / 2"
  using double_of_real_eqI [of "- 1" "1 / 2" 4503599627370496] by (simp add: pow2_def)

lemma double_three_quarters: "double_of_real (3 / 4) = 3 / 4"
  using double_of_real_eqI [of "- 1" "3 / 4" 6755399441055744] by (simp add: pow2_def)

lemma double_0_7_fixed:
  "double_of_real (3152519739159347 / 2 ^ 52) = 3152519739159347 / 2 ^ 52"
  using double_of_real_eqI [of "- 1" "3152519739159347 / 2 ^ 52" 6305039478318694]
  by (simp add: pow2_def)

section \<open>Properties of the first variant\<close>

lemma alternates_tl: "alternates xs \<Longrightarrow> alternates (tl xs)"
proof (cases xs)
  case Nil
  then show ?thesis by simp
next
  case (Cons a ys)
  assume "alternates xs"
  with Cons show ?thesis by (cases ys) simp_all
qed

lemma alternates_drop: "alternates xs \<Longrightarrow> alternates (drop n xs)"
proof (induction n arbitrary: xs)
  case 0
  then show ?case by simp
next
  case (Suc n)
  from Suc.prems have "alternates (tl xs)" by (rule alternates_tl)
  then have "alternates (drop n (tl xs))" by (rule Suc.IH)
  then show ?case by (simp add: drop_Suc)
qed

text \<open>
  What the trim step of lines 120-121 does to any history: over the cap it drops the first
  two turns of the appended history (the only turn when there is just one), otherwise
  nothing; what remains is a suffix, so it alternates when the appended history did.
\<close>

lemma appendAndTrim_drops_oldest_pair:
  "appendAndTrim w h t = (if length (h @ [t]) > 2 * w then drop 2 (h @ [t]) else h @ [t])"
  by (simp add: appendAndTrim_def Let_def)

lemma appendAndTrim_alternates:
  "alternates (h @ [t]) \<Longrightarrow> alternates (appendAndTrim w h t)"
  using alternates_drop [of "h @ [t]" 2] by (simp add: appendAndTrim_def Let_def)

lemma history_after_two_tasks:
  "history_of after_two_tasks ''t1'' =
     [model_turn ''...'', user_turn ''a'', user_turn ''b'', model_turn ''hi'']"
  unfolding after_two_tasks_def by code_simp

lemma history_after_three_tasks:
  "history_of after_three_tasks ''t1'' =
     [user_turn ''b'', model_turn ''hi'', user_turn ''c'', model_turn ''yo'']"
  unfolding after_three_tasks_def after_two_tasks_def by code_simp

text \<open>
  Claim C1, at the input where the code departs from it. The history \<open>[user a, user b]\<close>
  ends in two user turns. The repair of lines 124-126 splices the placeholder in at index
  \<open>length - 2\<close>, which is before the first of the two user turns and not between them: the
  result is \<open>[model ..., user a, user b]\<close>, its last two turns still share the role
  \<open>user\<close>, and it does not alternate. The same happens inside
  \<^verbatim>\<open>processMessageWithGemini\<close>: after a first message that the model left unanswered, the
  second message sends exactly this history to the model.
\<close>

theorem repair_inserts_before_first_user_turn:
  "repairAlternation [user_turn ''a'', user_turn ''b'']
     = [model_turn ''...'', user_turn ''a'', user_turn ''b'']
   \<and> \<not> alternates (repairAlternation [user_turn ''a'', user_turn ''b''])
   \<and> GenerateContent ''gemini-pro'' [model_turn ''...'', user_turn ''a'', user_turn ''b'']
       \<in> set (calls after_two_tasks)"
proof -
  have r: "repairAlternation [user_turn ''a'', user_turn ''b'']
             = [model_turn ''...'', user_turn ''a'', user_turn ''b'']"
    by (simp add: repairAlternation_def repairUser_def repairModel_def splice_insert_def
        user_turn_def model_turn_def)
  have a: "\<not> alternates [model_turn ''...'', user_turn ''a'', user_turn ''b'']"
    by (simp add: user_turn_def model_turn_def)
  have c: "GenerateContent ''gemini-pro'' [model_turn ''...'', user_turn ''a'', user_turn ''b'']
             \<in> set (calls after_two_tasks)"
    unfolding after_two_tasks_def by code_simp
  from r a c show ?thesis by simp
qed

text \<open>
  Claim C2, at an input where the code departs from it. With \<open>CONTEXT_WINDOW = 1\<close> the cap
  is two turns. The two tasks above leave four turns in the history of the thread: the
  placeholder of the repair and the model's reply come on top of the two user turns. The
  trim step of the third message drops the oldest pair, the only thing it ever does, and
  leaves three turns, one more than the cap. The model's answer makes four again, so the
  trim step of every later message leaves three turns as well.
\<close>

theorem trim_leaves_history_over_cap:
  "length (history_of after_two_tasks ''t1'') = 4
   \<and> appendAndTrim (CONTEXT_WINDOW example_config1)
        (history_of after_two_tasks ''t1'') (user_turn ''c'')
       = [user_turn ''b'', model_turn ''hi'', user_turn ''c'']
   \<and> \<not> length (appendAndTrim (CONTEXT_WINDOW example_config1)
               (history_of after_two_tasks ''t1'') (user_turn ''c''))
       \<le> 2 * CONTEXT_WINDOW example_config1
   \<and> history_of after_three_tasks ''t1''
       = [user_turn ''b'', model_turn ''hi'', user_turn ''c'', model_turn ''yo'']
   \<and> \<not> length (appendAndTrim (CONTEXT_WINDOW example_config1)
               (history_of after_three_tasks ''t1'') (user_turn ''d''))
       \<le> 2 * CONTEXT_WINDOW example_config1"
  by (simp add: history_after_two_tasks history_after_three_tasks appendAndTrim_def
      example_config1_def)

text \<open>
  Claim C10. A task that is not the admin's reset command meets the random gate of line 86
  before anything else: when the draw exceeds \<open>RESPONSE_PROBABILITY\<close> the function returns
  with the whole state as it was (the history map, the history file, the queue map, and no
  call to the filter, the model or the platform recorded). The first variant has no check
  for messages addressed to the bot, so whatever the body says, a configured probability
  below 1 leaves draws in \<open>[0, 1)\<close> on which the message is dropped.
\<close>

theorem probability_gate_drops_task:
  assumes "\<not> (senderID t \<in> set (ADMIN_UIDS cfg) \<and> trim (body t) = ''!history reset'')"
  shows "(gate_draw oc > RESPONSE_PROBABILITY cfg \<longrightarrow> processMessageWithGemini cfg oc t st = st)
         \<and> (RESPONSE_PROBABILITY cfg < 1 \<longrightarrow>
              (\<exists>r. 0 \<le> r \<and> r < 1
                 \<and> processMessageWithGemini cfg (oc\<lparr>gate_draw := r\<rparr>) t st = st))"
proof -
  have gate: "processMessageWithGemini cfg oc' t st = st"
    if "gate_draw oc' > RESPONSE_PROBABILITY cfg" for oc'
    using assms that by (auto simp add: processMessageWithGemini_def Let_def)
  have "\<exists>r. 0 \<le> r \<and> r < 1 \<and> processMessageWithGemini cfg (oc\<lparr>gate_draw := r\<rparr>) t st = st"
    if p: "RESPONSE_PROBABILITY cfg < 1"
  proof -
    define r where "r = (max (RESPONSE_PROBABILITY cfg) 0 + 1) / 2"
    from p have "0 \<le> r" and "r < 1" and "RESPONSE_PROBABILITY cfg < r"
      by (simp_all add: r_def max_def)
    moreover from \<open>RESPONSE_PROBABILITY cfg < r\<close>
    have "processMessageWithGemini cfg (oc\<lparr>gate_draw := r\<rparr>) t st = st"
      by (intro gate) simp
    ultimately show ?thesis by blast
  qed
  with gate show ?thesis by blast
qed

theorem probability_gate_drops_task_witness:
  "\<not> (senderID (example_task ''hey bot'') \<in> set (ADMIN_UIDS example_config1)
       \<and> trim (body (example_task ''hey bot'')) = ''!history reset'')
   \<and> gate_draw ((reply_outcomes (Some ''hi''))\<lparr>gate_draw := 3 / 4\<rparr>)
       > RESPONSE_PROBABILITY example_config1
   \<and> processMessageWithGemini example_config1 ((reply_outcomes (Some ''hi''))\<lparr>gate_draw := 3 / 4\<rparr>)
       (example_task ''hey bot'') after_two_tasks = after_two_tasks"
  using probability_gate_drops_task
    [of "example_task ''hey bot''" example_config1
        "(reply_outcomes (Some ''hi''))\<lparr>gate_draw := 3 / 4\<rparr>" after_two_tasks]
  by (simp add: example_task_def example_config1_def reply_outcomes_def)

text \<open>
  The verdicts \<^verbatim>\<open>IGNORE\<close> and \<^verbatim>\<open>REACTION\<close> of the first variant (lines 110 and 112-117): the
  function returns with every history and the history file as they were.
\<close>

lemma history_of_new_entry:
  "history_of (case threadHistory st k of None \<Rightarrow> set_history k [] st | Some h \<Rightarrow> st) t
     = history_of st t"
  by (simp add: history_of_def set_history_def split: option.splits)

lemma verdict_ignore_keeps_history:
  assumes "\<not> (senderID t \<in> set (ADMIN_UIDS cfg) \<and> trim (body t) = ''!history reset'')"
    and "\<not> gate_draw oc > RESPONSE_PROBABILITY cfg"
    and "filter_result oc = Inr txt" and "filterAction txt = ''IGNORE''"
  shows "history_of (processMessageWithGemini cfg oc t st) k = history_of st k
     \<and> snapshot (processMessageWithGemini cfg oc t st) = snapshot st
     \<and> filter is_platform_call (calls (processMessageWithGemini cfg oc t st))
         = filter is_platform_call (calls st)"
proof -
  have admin: "(senderID t \<in> set (ADMIN_UIDS cfg) \<and> trim (body t) = ''!history reset'') = False"
    using assms(1) by simp
  show ?thesis
    using assms(2-4)
    by (simp add: processMessageWithGemini_def admin Let_def record_call_def)
       (simp add: history_of_def set_history_def split: option.splits)
qed

lemma verdict_reaction_keeps_history:
  assumes "\<not> (senderID t \<in> set (ADMIN_UIDS cfg) \<and> trim (body t) = ''!history reset'')"
    and "\<not> gate_draw oc > RESPONSE_PROBABILITY cfg"
    and "filter_result oc = Inr txt" and "filterAction txt = ''REACTION''"
    and "reaction_result oc = Inr ()"
  shows "history_of (processMessageWithGemini cfg oc t st) k = history_of st k
     \<and> snapshot (processMessageWithGemini cfg oc t st) = snapshot st
     \<and> filter is_platform_call (calls (processMessageWithGemini cfg oc t st))
         = filter is_platform_call (calls st)
           @ [SetMessageReaction (pick reactions1 (reaction_draw oc)) (messageID t)]"
proof -
  have admin: "(senderID t \<in> set (ADMIN_UIDS cfg) \<and> trim (body t) = ''!history reset'') = False"
    using assms(1) by simp
  show ?thesis
    using assms(2-5)
    by (simp add: processMessageWithGemini_def admin Let_def record_call_def)
       (simp add: history_of_def set_history_def split: option.splits)
qed

section \<open>Properties of the queue worker\<close>

text \<open>
  A worker is the \<^verbatim>\<open>try\<close> statement around the processing of one task: it leaves the state
  that the processing left, with one line logged for a raised error, and ends with the
  use of the callback.
\<close>

lemma try_catch_finally_worker:
  "try_catch_finally (in_bot p) (\<lambda>err. log_error (line err)) (callback lib) ws =
     (case p (bot ws) of
        (r, st) \<Rightarrow>
          callback lib
            (ws\<lparr>bot := st,
                console_error := console_error ws
                  @ (case r of Inl err \<Rightarrow> [line err] | Inr u \<Rightarrow> [])\<rparr>))"
  by (simp add: try_catch_finally_def in_bot_def log_error_def split: prod.splits sum.splits)

lemma createThreadQueue_worker_of:
  "(\<lambda>tid. createThreadQueue_worker lib process) = worker_of lib process line1"
proof (intro ext)
  fix tid :: thread_id and t :: "'a task_scheme" and ws :: "'b worker_state"
  have "createThreadQueue_worker lib process t
          = try_catch_finally (in_bot (process t)) (\<lambda>err. log_error (line1 tid t err)) (callback lib)"
    by (simp add: createThreadQueue_worker_def line1_def)
  then show "createThreadQueue_worker lib process t ws = worker_of lib process line1 tid t ws"
    by (simp only: try_catch_finally_worker worker_of_def)
qed

lemma getThreadQueue_worker_of:
  "(\<lambda>tid. getThreadQueue_worker lib tid process) = worker_of lib process line2"
proof (intro ext)
  fix tid :: thread_id and t :: 'a and ws :: "'b worker_state"
  have "getThreadQueue_worker lib tid process t
          = try_catch_finally (in_bot (process t)) (\<lambda>err. log_error (line2 tid t err)) (callback lib)"
    by (simp add: getThreadQueue_worker_def line2_def)
  then show "getThreadQueue_worker lib tid process t ws = worker_of lib process line2 tid t ws"
    by (simp only: try_catch_finally_worker worker_of_def)
qed

lemma worker_of_bot:
  "bot (snd (worker_of lib process label tid t ws)) = snd (process t (bot ws))"
  by (cases lib) (simp_all add: worker_of_def callback_def split: prod.splits)

lemma worker_of_console_error:
  "console_error (snd (worker_of lib process label tid t ws))
     = console_error ws
       @ (case fst (process t (bot ws)) of Inl err \<Rightarrow> [label tid t err] | Inr u \<Rightarrow> [])"
  by (cases lib) (simp_all add: worker_of_def callback_def split: prod.splits)

lemma worker_of_callback:
  "fst (worker_of PassesCallback process label tid t ws) = Inr ()
   \<and> callbacks (snd (worker_of PassesCallback process label tid t ws)) = callbacks ws + 1"
  by (simp add: worker_of_def callback_def split: prod.splits)

lemma run_next_step:
  assumes "\<not> crashed d" and "tid \<notin> set (stalled d)" and "queues d tid = Some (t # rest)"
  shows "queues (run_next lib pc (worker_of lib process label) tid d) = (queues d)(tid \<mapsto> rest)
     \<and> started (run_next lib pc (worker_of lib process label) tid d) = started d @ [t]
     \<and> bot (workers (run_next lib pc (worker_of lib process label) tid d))
         = snd (process t (bot (workers d)))
     \<and> \<not> crashed (run_next lib pc (worker_of lib process label) tid d)
     \<and> stalled (run_next lib pc (worker_of lib process label) tid d) = stalled d"
proof (cases lib)
  case PassesCallback
  obtain r ws where w: "worker_of PassesCallback process label tid t (workers d) = (r, ws)"
    by (cases "worker_of PassesCallback process label tid t (workers d)")
  from worker_of_callback [of process label tid t "workers d"] w
  have r: "r = Inr ()" and c: "callbacks ws \<noteq> callbacks (workers d)" by simp_all
  from worker_of_bot [of PassesCallback process label tid t "workers d"] w
  have b: "bot ws = snd (process t (bot (workers d)))" by simp
  show ?thesis
    using assms by (simp add: run_next_def PassesCallback w r c b)
next
  case AwaitsPromise
  obtain r ws where w: "worker_of AwaitsPromise process label tid t (workers d) = (r, ws)"
    by (cases "worker_of AwaitsPromise process label tid t (workers d)")
  from worker_of_bot [of AwaitsPromise process label tid t "workers d"] w
  have b: "bot ws = snd (process t (bot (workers d)))" by simp
  show ?thesis
    using assms by (cases r) (simp_all add: run_next_def AwaitsPromise w b)
qed

lemma run_next_alive:
  assumes "\<not> crashed d"
  shows "\<not> crashed (run_next lib pc (worker_of lib process label) tid d)
     \<and> stalled (run_next lib pc (worker_of lib process label) tid d) = stalled d"
proof (cases "tid \<in> set (stalled d)")
  case True
  with assms show ?thesis by (simp add: run_next_def)
next
  case False
  show ?thesis
  proof (cases "queues d tid")
    case None
    with assms show ?thesis by (simp add: run_next_def)
  next
    case (Some q)
    show ?thesis
    proof (cases q)
      case Nil
      with Some assms show ?thesis by (simp add: run_next_def)
    next
      case (Cons t rest)
      with Some have "queues d tid = Some (t # rest)" by simp
      from run_next_step [OF assms False this] show ?thesis by blast
    qed
  qed
qed

lemma run_schedule_alive:
  "\<not> crashed d \<Longrightarrow>
   \<not> crashed (run_schedule lib pc (worker_of lib process label) schedule d)
   \<and> stalled (run_schedule lib pc (worker_of lib process label) schedule d) = stalled d"
proof (induction schedule arbitrary: d)
  case Nil
  then show ?case by simp
next
  case (Cons tid tids)
  from run_next_alive [OF Cons.prems]
  have a: "\<not> crashed (run_next lib pc (worker_of lib process label) tid d)"
    and s: "stalled (run_next lib pc (worker_of lib process label) tid d) = stalled d"
    by blast+
  from Cons.IH [OF a] s show ?case by simp
qed

lemma run_schedule_same_thread:
  "\<not> crashed d \<Longrightarrow> tid \<notin> set (stalled d) \<Longrightarrow> queues d tid = Some q \<Longrightarrow> n \<le> length q \<Longrightarrow>
   started (run_schedule lib pc (worker_of lib process label) (replicate n tid) d)
     = started d @ take n q
   \<and> queues (run_schedule lib pc (worker_of lib process label) (replicate n tid) d) tid
       = Some (drop n q)
   \<and> (\<forall>other. other \<noteq> tid \<longrightarrow>
         queues (run_schedule lib pc (worker_of lib process label) (replicate n tid) d) other
           = queues d other)
   \<and> bot (workers (run_schedule lib pc (worker_of lib process label) (replicate n tid) d))
       = fold (\<lambda>t st. snd (process t st)) (take n q) (bot (workers d))"
proof (induction n arbitrary: d q)
  case 0
  then show ?case by simp
next
  case (Suc n)
  from Suc.prems(4) obtain t rest where q: "q = t # rest" by (cases q) auto
  let ?d1 = "run_next lib pc (worker_of lib process label) tid d"
  from Suc.prems(3) q have "queues d tid = Some (t # rest)" by simp
  from run_next_step [OF Suc.prems(1) Suc.prems(2) this]
  have qs: "queues ?d1 = (queues d)(tid \<mapsto> rest)"
    and st: "started ?d1 = started d @ [t]"
    and b: "bot (workers ?d1) = snd (process t (bot (workers d)))"
    and a: "\<not> crashed ?d1"
    and s: "stalled ?d1 = stalled d"
    by blast+
  have "tid \<notin> set (stalled ?d1)" using s Suc.prems(2) by simp
  moreover have "queues ?d1 tid = Some rest" by (simp add: qs)
  moreover have "n \<le> length rest" using Suc.prems(4) q by simp
  ultimately have IH:
    "started (run_schedule lib pc (worker_of lib process label) (replicate n tid) ?d1)
       = started ?d1 @ take n rest
     \<and> queues (run_schedule lib pc (worker_of lib process label) (replicate n tid) ?d1) tid
         = Some (drop n rest)
     \<and> (\<forall>other. other \<noteq> tid \<longrightarrow>
           queues (run_schedule lib pc (worker_of lib process label) (replicate n tid) ?d1) other
             = queues ?d1 other)
     \<and> bot (workers (run_schedule lib pc (worker_of lib process label) (replicate n tid) ?d1))
         = fold (\<lambda>t st. snd (process t st)) (take n rest) (bot (workers ?d1))"
    using a by (intro Suc.IH) simp_all
  have o: "\<And>other. other \<noteq> tid \<Longrightarrow> queues ?d1 other = queues d other" by (simp add: qs)
  from IH st b o show ?case by (simp add: q)
qed

text \<open>
  Claim C8. The worker of either variant runs the processing of its task, whether it
  succeeds or raises: the state of the bot after the worker is the state the processing
  left. An error raised by the processing is caught and one line with its message is
  written to \<^verbatim>\<open>console.error\<close>; nothing is written for a task that succeeds. Where the
  queue passes its callback, the worker invokes it once and returns normally. Hence, under
  either behaviour of the library, under any schedule of the queues and any pattern of
  failing tasks, the process does not crash and no queue stalls; running the queue of one
  thread \<open>n\<close> times hands its first \<open>n\<close> pending tasks to the worker in order, leaves the
  state of the bot that processing these tasks one after the other gives, the task after
  a failed one included, and leaves every other thread's queue as it was.
\<close>

theorem task_error_is_caught_and_queue_goes_on:
  assumes "(w = (\<lambda>tid. createThreadQueue_worker lib process) \<and> pc = push_callback1)
           \<or> (w = (\<lambda>tid. getThreadQueue_worker lib tid process) \<and> pc = push_callback2)"
    and "\<not> crashed d" and "tid \<notin> set (stalled d)"
  shows "(\<forall>t ws.
            bot (snd (w tid t ws)) = snd (process t (bot ws))
            \<and> (\<exists>prefix. console_error (snd (w tid t ws))
                  = console_error ws
                    @ (case fst (process t (bot ws)) of
                         Inl err \<Rightarrow> [prefix @ message err]
                       | Inr u \<Rightarrow> []))
            \<and> (lib = PassesCallback \<longrightarrow>
                 fst (w tid t ws) = Inr () \<and> callbacks (snd (w tid t ws)) = callbacks ws + 1))
     \<and> \<not> crashed (run_schedule lib pc w schedule d)
     \<and> stalled (run_schedule lib pc w schedule d) = stalled d
     \<and> (\<forall>q n. queues d tid = Some q \<and> n \<le> length q \<longrightarrow>
           started (run_schedule lib pc w (replicate n tid) d) = started d @ take n q
           \<and> queues (run_schedule lib pc w (replicate n tid) d) tid = Some (drop n q)
           \<and> (\<forall>other. other \<noteq> tid \<longrightarrow>
                 queues (run_schedule lib pc w (replicate n tid) d) other = queues d other)
           \<and> bot (workers (run_schedule lib pc w (replicate n tid) d))
               = fold (\<lambda>t st. snd (process t st)) (take n q) (bot (workers d)))"
proof -
  from assms(1) obtain label where w: "w = worker_of lib process label"
    and label: "\<And>tid t err. \<exists>prefix. label tid t err = prefix @ message err"
  proof
    assume "w = (\<lambda>tid. createThreadQueue_worker lib process) \<and> pc = push_callback1"
    then have "w = worker_of lib process line1"
      by (simp add: createThreadQueue_worker_of)
    moreover have "\<exists>prefix. line1 tid t err = prefix @ message err"
      for tid :: thread_id and t :: "'a task_scheme" and err
      unfolding line1_def by blast
    ultimately show ?thesis by (rule that)
  next
    assume "w = (\<lambda>tid. getThreadQueue_worker lib tid process) \<and> pc = push_callback2"
    then have "w = worker_of lib process line2"
      by (simp add: getThreadQueue_worker_of)
    moreover have "\<exists>prefix. line2 tid t err = prefix @ message err"
      for tid :: thread_id and t :: "'a task_scheme" and err
      unfolding line2_def by blast
    ultimately show ?thesis by (rule that)
  qed
  have worker: "bot (snd (w tid t ws)) = snd (process t (bot ws))
            \<and> (\<exists>prefix. console_error (snd (w tid t ws))
                  = console_error ws
                    @ (case fst (process t (bot ws)) of
                         Inl err \<Rightarrow> [prefix @ message err]
                       | Inr u \<Rightarrow> []))
            \<and> (lib = PassesCallback \<longrightarrow>
                 fst (w tid t ws) = Inr () \<and> callbacks (snd (w tid t ws)) = callbacks ws + 1)"
    for t ws
  proof -
    have l: "\<exists>prefix. console_error (snd (w tid t ws))
                  = console_error ws
                    @ (case fst (process t (bot ws)) of
                         Inl err \<Rightarrow> [prefix @ message err]
                       | Inr u \<Rightarrow> [])"
    proof (cases "fst (process t (bot ws))")
      case (Inl err)
      from label [of tid t err] obtain prefix where "label tid t err = prefix @ message err" ..
      with Inl worker_of_console_error [of lib process label tid t ws] show ?thesis
        unfolding w by auto
    next
      case (Inr u)
      with worker_of_console_error [of lib process label tid t ws] show ?thesis
        unfolding w by simp
    qed
    from l worker_of_bot [of lib process label tid t ws]
      worker_of_callback [of process label tid t ws]
    show ?thesis unfolding w by auto
  qed
  have alive: "\<not> crashed (run_schedule lib pc w schedule d)
      \<and> stalled (run_schedule lib pc w schedule d) = stalled d"
    unfolding w using assms(2) by (rule run_schedule_alive)
  have fifo: "started (run_schedule lib pc w (replicate n tid) d) = started d @ take n q
           \<and> queues (run_schedule lib pc w (replicate n tid) d) tid = Some (drop n q)
           \<and> (\<forall>other. other \<noteq> tid \<longrightarrow>
                 queues (run_schedule lib pc w (replicate n tid) d) other = queues d other)
           \<and> bot (workers (run_schedule lib pc w (replicate n tid) d))
               = fold (\<lambda>t st. snd (process t st)) (take n q) (bot (workers d))"
    if "queues d tid = Some q \<and> n \<le> length q" for q n
    unfolding w using that run_schedule_same_thread [OF assms(2) assms(3), of q n] by blast
  from worker alive fifo show ?thesis by blast
qed

theorem task_error_is_caught_and_queue_goes_on_witness:
  "\<not> crashed example_dispatcher
   \<and> ''t1'' \<notin> set (stalled example_dispatcher)
   \<and> queues example_dispatcher ''t1'' = Some [example_task ''boom'', example_task ''ok'']
   \<and> failing_process (example_task ''boom'') 0 = (Inl (Error ''boom''), 0)
   \<and> failing_process (example_task ''ok'') 0 = (Inr (), 1)
   \<and> \<not> crashed (run_schedule PassesCallback push_callback1
                   (\<lambda>tid. createThreadQueue_worker PassesCallback failing_process)
                   [''t1'', ''t2'', ''t1''] example_dispatcher)
   \<and> started (run_schedule PassesCallback push_callback1
                (\<lambda>tid. createThreadQueue_worker PassesCallback failing_process)
                (replicate 2 ''t1'') example_dispatcher)
       = [example_task ''boom'', example_task ''ok'']
   \<and> bot (workers (run_schedule PassesCallback push_callback1
                      (\<lambda>tid. createThreadQueue_worker PassesCallback failing_process)
                      (replicate 2 ''t1'') example_dispatcher)) = 1
   \<and> callbacks (workers (run_schedule PassesCallback push_callback1
                            (\<lambda>tid. createThreadQueue_worker PassesCallback failing_process)
                            (replicate 2 ''t1'') example_dispatcher)) = 2
   \<and> console_error (workers (run_schedule PassesCallback push_callback1
                                (\<lambda>tid. createThreadQueue_worker PassesCallback failing_process)
                                (replicate 2 ''t1'') example_dispatcher))
       = [''Error processing message in thread t1: boom'']
   \<and> queues (run_schedule PassesCallback push_callback1
                (\<lambda>tid. createThreadQueue_worker PassesCallback failing_process)
                (replicate 2 ''t1'') example_dispatcher) ''t2''
       = Some [example_task ''other'']
   \<and> bot (workers (run_schedule AwaitsPromise push_callback2
                      (\<lambda>tid. getThreadQueue_worker AwaitsPromise tid failing_process)
                      (replicate 2 ''t1'') example_dispatcher)) = 1"
proof -
  let ?w = "\<lambda>tid::thread_id. createThreadQueue_worker PassesCallback failing_process"
  let ?w2 = "\<lambda>tid::thread_id. getThreadQueue_worker AwaitsPromise tid failing_process"
  have a: "(?w = (\<lambda>tid. createThreadQueue_worker PassesCallback failing_process)
             \<and> push_callback1 = push_callback1)
           \<or> (?w = (\<lambda>tid. getThreadQueue_worker PassesCallback tid failing_process)
             \<and> push_callback1 = push_callback2)"
    by simp
  have a2: "(?w2 = (\<lambda>tid. createThreadQueue_worker AwaitsPromise failing_process)
             \<and> push_callback2 = push_callback1)
           \<or> (?w2 = (\<lambda>tid. getThreadQueue_worker AwaitsPromise tid failing_process)
             \<and> push_callback2 = push_callback2)"
    by simp
  have b: "\<not> crashed example_dispatcher" and c: "''t1'' \<notin> set (stalled example_dispatcher)"
    by (simp_all add: example_dispatcher_def enqueue_def)
  have q: "queues example_dispatcher ''t1'' = Some [example_task ''boom'', example_task ''ok'']"
    and q2: "queues example_dispatcher ''t2'' = Some [example_task ''other'']"
    and s: "started example_dispatcher = []"
    and b0: "bot (workers example_dispatcher) = 0"
    by (simp_all add: example_dispatcher_def enqueue_def)
  have p1: "failing_process (example_task ''boom'') 0 = (Inl (Error ''boom''), 0)"
    and p2: "failing_process (example_task ''ok'') 0 = (Inr (), 1)"
    by (simp_all add: failing_process_def example_task_def)
  have ce: "console_error (workers (run_schedule PassesCallback push_callback1 ?w
                                      (replicate 2 ''t1'') example_dispatcher))
             = [''Error processing message in thread t1: boom'']"
    and cb: "callbacks (workers (run_schedule PassesCallback push_callback1 ?w
                                   (replicate 2 ''t1'') example_dispatcher)) = 2"
    by code_simp+
  note main = task_error_is_caught_and_queue_goes_on
    [of ?w PassesCallback failing_process push_callback1 example_dispatcher "''t1''"
        "[''t1'', ''t2'', ''t1'']", OF a b c]
  note main2 = task_error_is_caught_and_queue_goes_on
    [of ?w2 AwaitsPromise failing_process push_callback2 example_dispatcher "''t1''" "[]",
     OF a2 b c]
  from main have alive: "\<not> crashed (run_schedule PassesCallback push_callback1 ?w
                                      [''t1'', ''t2'', ''t1''] example_dispatcher)"
    by blast
  from main q
  have run: "started (run_schedule PassesCallback push_callback1 ?w (replicate 2 ''t1'')
                        example_dispatcher)
          = started example_dispatcher @ take 2 [example_task ''boom'', example_task ''ok'']
        \<and> (\<forall>other. other \<noteq> ''t1'' \<longrightarrow>
              queues (run_schedule PassesCallback push_callback1 ?w (replicate 2 ''t1'')
                        example_dispatcher) other
                = queues example_dispatcher other)
        \<and> bot (workers (run_schedule PassesCallback push_callback1 ?w (replicate 2 ''t1'')
                           example_dispatcher))
            = fold (\<lambda>t st. snd (failing_process t st))
                (take 2 [example_task ''boom'', example_task ''ok''])
                (bot (workers example_dispatcher))"
    by simp
  from main2 q
  have run2: "bot (workers (run_schedule AwaitsPromise push_callback2 ?w2 (replicate 2 ''t1'')
                           example_dispatcher))
            = fold (\<lambda>t st. snd (failing_process t st))
                (take 2 [example_task ''boom'', example_task ''ok''])
                (bot (workers example_dispatcher))"
    by simp
  from alive run run2 show ?thesis
    using b c q q2 s b0 p1 p2 ce cb by simp
qed

section \<open>Properties of the second and third variant\<close>

lemma chat_sendMessage_ok:
  "chat_answer oc = Inr reply \<Longrightarrow>
   chat_sendMessage oc tid msg st =
     (Inr reply,
      st\<lparr>calls := calls st @ [ChatSendMessage tid msg],
         chatSessions := (chatSessions st)(tid \<mapsto> chat_history st tid @ [user_turn msg, answer_turn reply])\<rparr>)"
  by (simp add: chat_sendMessage_def record_call_def chat_history_def)

lemma chat_sendMessage_error:
  "chat_answer oc = Inl err \<Longrightarrow>
   chat_sendMessage oc tid msg st = (Inl err, st\<lparr>calls := calls st @ [ChatSendMessage tid msg]\<rparr>)"
  by (simp add: chat_sendMessage_def record_call_def)

lemma persistChat_persistedHistory:
  "persistedHistory (persistChat cfg tid st) = (persistedHistory st)(tid \<mapsto> chat_history st tid)"
  by (simp add: persistChat_def saveHistory2_def)

lemma persistChat_snapshot:
  "snapshot (persistChat cfg tid st)
     = (if PERSISTENCE_ENABLED cfg then (persistedHistory st)(tid \<mapsto> chat_history st tid)
        else snapshot st)"
  by (simp add: persistChat_def saveHistory2_def)

lemma persistChat_calls: "calls (persistChat cfg tid st) = calls st"
  by (simp add: persistChat_def saveHistory2_def)

lemma persistChat_chat_history: "chat_history (persistChat cfg tid st) t = chat_history st t"
  by (simp add: persistChat_def saveHistory2_def chat_history_def)

text \<open>What the three branches of the decision stage do when the chat call resolves.\<close>

lemma ignoreBranch_resolved:
  assumes "chat_answer oc = Inr r"
  shows "fst (ignoreBranch cfg oc ev msg desc st) = Inr ()
     \<and> chat_history (snd (ignoreBranch cfg oc ev msg desc st)) (threadID ev)
         = chat_history st (threadID ev) @ [user_turn (msg @ desc), answer_turn r]
     \<and> calls (snd (ignoreBranch cfg oc ev msg desc st))
         = calls st @ [ChatSendMessage (threadID ev) (msg @ desc)]
     \<and> persistedHistory (snd (ignoreBranch cfg oc ev msg desc st))
         = (persistedHistory st)
             (threadID ev \<mapsto> chat_history (snd (ignoreBranch cfg oc ev msg desc st)) (threadID ev))
     \<and> snapshot (snd (ignoreBranch cfg oc ev msg desc st))
         = (if PERSISTENCE_ENABLED cfg
            then persistedHistory (snd (ignoreBranch cfg oc ev msg desc st))
            else snapshot st)"
  using assms
  by (simp add: ignoreBranch_def chat_sendMessage_ok persistChat_persistedHistory
      persistChat_snapshot persistChat_calls persistChat_chat_history)
     (simp add: chat_history_def)

lemma reactionBranch_resolved:
  assumes "chat_answer oc = Inr r"
  shows "fst (reactionBranch cfg oc ev msg desc st) = Inr ()
     \<and> chat_history (snd (reactionBranch cfg oc ev msg desc st)) (threadID ev)
         = chat_history st (threadID ev) @ [user_turn (msg @ desc), answer_turn r]
     \<and> persistedHistory (snd (reactionBranch cfg oc ev msg desc st))
         = (persistedHistory st)
             (threadID ev \<mapsto> chat_history (snd (reactionBranch cfg oc ev msg desc st)) (threadID ev))
     \<and> snapshot (snd (reactionBranch cfg oc ev msg desc st))
         = (if PERSISTENCE_ENABLED cfg
            then persistedHistory (snd (reactionBranch cfg oc ev msg desc st))
            else snapshot st)"
  using assms
  by (simp add: reactionBranch_def Let_def chat_sendMessage_ok persistChat_persistedHistory
      persistChat_snapshot persistChat_chat_history)
     (simp add: chat_history_def record_call_def)

lemma replyBranch_resolved:
  assumes "chat_answer oc = Inr (Some reply)"
  shows "fst (replyBranch cfg oc ev msg desc st) = Inr ()
     \<and> chat_history (snd (replyBranch cfg oc ev msg desc st)) (threadID ev)
         = chat_history st (threadID ev)
           @ [user_turn ((if msg = [] then ''The user sent media.'' else msg) @ desc),
              answer_turn (Some reply)]
     \<and> persistedHistory (snd (replyBranch cfg oc ev msg desc st))
         = (persistedHistory st)
             (threadID ev \<mapsto> chat_history (snd (replyBranch cfg oc ev msg desc st)) (threadID ev))
     \<and> snapshot (snd (replyBranch cfg oc ev msg desc st))
         = (if PERSISTENCE_ENABLED cfg
            then persistedHistory (snd (replyBranch cfg oc ev msg desc st))
            else snapshot st)"
  using assms
  by (simp add: replyBranch_def Let_def chat_sendMessage_ok persistChat_persistedHistory
      persistChat_snapshot persistChat_chat_history)
     (simp add: chat_history_def record_call_def)

text \<open>What the two branches with a handler do when the chat call fails.\<close>

lemma reactionBranch_rejected:
  assumes "chat_answer oc = Inl err"
  shows "fst (reactionBranch cfg oc ev msg desc st) = Inr ()
     \<and> persistedHistory (snd (reactionBranch cfg oc ev msg desc st)) = persistedHistory st
     \<and> snapshot (snd (reactionBranch cfg oc ev msg desc st)) = snapshot st"
  using assms
  by (simp add: reactionBranch_def Let_def chat_sendMessage_error record_call_def)

lemma replyBranch_failed:
  assumes "chat_answer oc = Inl err \<or> chat_answer oc = Inr None"
  shows "fst (replyBranch cfg oc ev msg desc st) = Inr ()
     \<and> persistedHistory (snd (replyBranch cfg oc ev msg desc st)) = persistedHistory st
     \<and> snapshot (snd (replyBranch cfg oc ev msg desc st)) = snapshot st
     \<and> SendMessage apology (threadID ev) \<in> set (calls (snd (replyBranch cfg oc ev msg desc st)))"
  using assms
  by (auto simp add: replyBranch_def Let_def chat_sendMessage_error chat_sendMessage_ok
      record_call_def)

text \<open>Values of the string functions and of the decision at the concrete inputs.\<close>

lemma lower_hey_gemini: "toLowerCase ''hey gemini'' = ''hey gemini''"
  by code_simp

lemma includes_gemini: "str_includes ''hey gemini'' ''gemini''"
  by code_simp

lemma trim_ok: "trim ''ok'' = ''ok''"
  by code_simp

lemma lower_nice_weather: "toLowerCase ''nice weather'' = ''nice weather''"
  by code_simp

lemma nice_weather_without_name: "\<not> str_includes ''nice weather'' ''gemini''"
  by code_simp

lemma yes_in_yesterday:
  "str_includes (toLowerCase (trim ''No, that was about yesterday.'')) ''yes''"
  by code_simp

lemmas run2 =
  processMessage_def example_event_def example_config2_def example_outcomes2_def
  initial_state2_def getChatSession_def describeAttachments_def respondDecision_def
  shouldBotReply_def decideAndAct_def getReplyAction_def double_add_def double_three_quarters
  double_0_1 ignoreBranch_def reactionBranch_def replyBranch_def chat_sendMessage_def
  record_call_def persistChat_def saveHistory2_def chat_history_def user_turn_def
  model_turn_def answer_turn_def Let_def lower_hey_gemini includes_gemini trim_ok
  lower_nice_weather nice_weather_without_name yes_in_yesterday

lemma getReplyAction3_eq:
  "double_of_real (PROBABILITIES_REPLY cfg) = PROBABILITIES_REPLY cfg \<Longrightarrow>
   getReplyAction3 (PROBABILITIES_REPLY cfg) (PROBABILITIES_REACT cfg) r = getReplyAction cfg r"
  by (simp add: getReplyAction3_def getReplyAction_def double_add_def Let_def)

text \<open>
  Claim C3 as stated fails, with every call succeeding. In the first variant a task whose
  verdict is \<^verbatim>\<open>IGNORE\<close> returns at line 110: the user's turn is not appended and nothing is
  written; and the verdict \<^verbatim>\<open>REACTION\<close> sets the reaction and returns at line 116 without
  persisting. In the second variant, with \<^verbatim>\<open>PERSISTENCE.ENABLED\<close> false, the \<^verbatim>\<open>IGNORE\<close>
  branch stores the history and \<^verbatim>\<open>saveHistory\<close> leaves the history file alone. And when
  the chat call of the \<^verbatim>\<open>MESSAGE\<close> branch is rejected, its handler sends the apology and
  the branch ends without storing or writing anything.
\<close>

theorem branches_that_end_without_persisting:
  "filter_result (verdict_outcomes ''IGNORE'') = Inr (Some ''IGNORE'')
   \<and> filterAction (Some ''IGNORE'') = ''IGNORE''
   \<and> history_of (processMessageWithGemini example_config1 (verdict_outcomes ''IGNORE'')
                   (example_task ''a'') initial_state1) ''t1'' = []
   \<and> snapshot (processMessageWithGemini example_config1 (verdict_outcomes ''IGNORE'')
                 (example_task ''a'') initial_state1) ''t1'' = None
   \<and> map is_platform_call
        (calls (processMessageWithGemini example_config1 (verdict_outcomes ''REACTION'')
                  (example_task ''a'') initial_state1)) = [False, True]
   \<and> history_of (processMessageWithGemini example_config1 (verdict_outcomes ''REACTION'')
                   (example_task ''a'') initial_state1) ''t1'' = []
   \<and> snapshot (processMessageWithGemini example_config1 (verdict_outcomes ''REACTION'')
                 (example_task ''a'') initial_state1) ''t1'' = None
   \<and> getReplyAction ((example_config2 ''gemini'')\<lparr>PERSISTENCE_ENABLED := False\<rparr>) (7 / 8) = IGNORE
   \<and> persistedHistory
        (snd (processMessage ((example_config2 ''gemini'')\<lparr>PERSISTENCE_ENABLED := False\<rparr>)
                (example_outcomes2 (Inr ''no'') (7 / 8) (Inr ''ok''))
                (example_event ''t1'' ''hey gemini'' []) initial_state2)) ''t1''
       = Some [user_turn ''hey gemini'', model_turn ''ok'']
   \<and> snapshot
        (snd (processMessage ((example_config2 ''gemini'')\<lparr>PERSISTENCE_ENABLED := False\<rparr>)
                (example_outcomes2 (Inr ''no'') (7 / 8) (Inr ''ok''))
                (example_event ''t1'' ''hey gemini'' []) initial_state2)) ''t1'' = None
   \<and> getReplyAction (example_config2 ''gemini'') (1 / 8) = MESSAGE
   \<and> SendMessage apology ''t1''
       \<in> set (calls (snd (processMessage (example_config2 ''gemini'')
                             (example_outcomes2 (Inr ''no'') (1 / 8) (Inl (Error ''503'')))
                             (example_event ''t1'' ''hey gemini'' []) initial_state2)))
   \<and> persistedHistory
        (snd (processMessage (example_config2 ''gemini'')
                (example_outcomes2 (Inr ''no'') (1 / 8) (Inl (Error ''503'')))
                (example_event ''t1'' ''hey gemini'' []) initial_state2)) ''t1'' = None
   \<and> snapshot
        (snd (processMessage (example_config2 ''gemini'')
                (example_outcomes2 (Inr ''no'') (1 / 8) (Inl (Error ''503'')))
                (example_event ''t1'' ''hey gemini'' []) initial_state2)) ''t1'' = None"
proof -
  have first:
    "filter_result (verdict_outcomes ''IGNORE'') = Inr (Some ''IGNORE'')
     \<and> filterAction (Some ''IGNORE'') = ''IGNORE''
     \<and> history_of (processMessageWithGemini example_config1 (verdict_outcomes ''IGNORE'')
                     (example_task ''a'') initial_state1) ''t1'' = []
     \<and> snapshot (processMessageWithGemini example_config1 (verdict_outcomes ''IGNORE'')
                   (example_task ''a'') initial_state1) ''t1'' = None
     \<and> map is_platform_call
          (calls (processMessageWithGemini example_config1 (verdict_outcomes ''REACTION'')
                    (example_task ''a'') initial_state1)) = [False, True]
     \<and> history_of (processMessageWithGemini example_config1 (verdict_outcomes ''REACTION'')
                     (example_task ''a'') initial_state1) ''t1'' = []
     \<and> snapshot (processMessageWithGemini example_config1 (verdict_outcomes ''REACTION'')
                   (example_task ''a'') initial_state1) ''t1'' = None"
    by code_simp
  have disabled:
    "getReplyAction ((example_config2 ''gemini'')\<lparr>PERSISTENCE_ENABLED := False\<rparr>) (7 / 8) = IGNORE
     \<and> persistedHistory
          (snd (processMessage ((example_config2 ''gemini'')\<lparr>PERSISTENCE_ENABLED := False\<rparr>)
                  (example_outcomes2 (Inr ''no'') (7 / 8) (Inr ''ok''))
                  (example_event ''t1'' ''hey gemini'' []) initial_state2)) ''t1''
         = Some [user_turn ''hey gemini'', model_turn ''ok'']
     \<and> snapshot
          (snd (processMessage ((example_config2 ''gemini'')\<lparr>PERSISTENCE_ENABLED := False\<rparr>)
                  (example_outcomes2 (Inr ''no'') (7 / 8) (Inr ''ok''))
                  (example_event ''t1'' ''hey gemini'' []) initial_state2)) ''t1'' = None"
    by (simp add: run2)
  have rejected:
    "getReplyAction (example_config2 ''gemini'') (1 / 8) = MESSAGE
     \<and> SendMessage apology ''t1''
         \<in> set (calls (snd (processMessage (example_config2 ''gemini'')
                               (example_outcomes2 (Inr ''no'') (1 / 8) (Inl (Error ''503'')))
                               (example_event ''t1'' ''hey gemini'' []) initial_state2)))
     \<and> persistedHistory
          (snd (processMessage (example_config2 ''gemini'')
                  (example_outcomes2 (Inr ''no'') (1 / 8) (Inl (Error ''503'')))
                  (example_event ''t1'' ''hey gemini'' []) initial_state2)) ''t1'' = None
     \<and> snapshot
          (snd (processMessage (example_config2 ''gemini'')
                  (example_outcomes2 (Inr ''no'') (1 / 8) (Inl (Error ''503'')))
                  (example_event ''t1'' ''hey gemini'' []) initial_state2)) ''t1'' = None"
    by (simp add: run2)
  from first disabled rejected show ?thesis by simp
qed

text \<open>
  Claim C3, amended. Second variant: for every task that reaches the decision stage and
  draws \<^verbatim>\<open>IGNORE\<close>, if the chat call resolves, the user's turn (and the model's answer, which
  is not sent) is appended to the conversation's history, the history is stored for the
  conversation and, when persistence is enabled, written to the history file, and the only
  call made is the chat call, so nothing goes to the platform. The \<^verbatim>\<open>REACTION\<close> branch
  whose chat call resolves and the \<^verbatim>\<open>MESSAGE\<close> branch whose chat call resolves with a text
  end by storing and writing the history in the same way; with persistence disabled the
  history file is left as it was. A \<^verbatim>\<open>REACTION\<close> or \<^verbatim>\<open>MESSAGE\<close> branch whose chat call fails
  ends without storing or writing anything, the \<^verbatim>\<open>MESSAGE\<close> branch after sending the
  apology. First variant: a task whose verdict is \<^verbatim>\<open>IGNORE\<close>, or \<^verbatim>\<open>REACTION\<close> with the
  reaction set, ends with every history and the history file as they were.
\<close>

theorem decide_stage_persists_after_chat_call:
  "(getReplyAction cfg (action_draw oc) = IGNORE \<and> chat_answer oc = Inr r \<longrightarrow>
      fst (decideAndAct cfg oc ev msg desc st) = Inr ()
      \<and> chat_history (snd (decideAndAct cfg oc ev msg desc st)) (threadID ev)
          = chat_history st (threadID ev) @ [user_turn (msg @ desc), answer_turn r]
      \<and> calls (snd (decideAndAct cfg oc ev msg desc st))
          = calls st @ [ChatSendMessage (threadID ev) (msg @ desc)])
   \<and> (chat_answer oc = Inr r \<and> (getReplyAction cfg (action_draw oc) = MESSAGE \<longrightarrow> r \<noteq> None) \<longrightarrow>
      fst (decideAndAct cfg oc ev msg desc st) = Inr ()
      \<and> (\<exists>sent. chat_history (snd (decideAndAct cfg oc ev msg desc st)) (threadID ev)
                   = chat_history st (threadID ev) @ [user_turn sent, answer_turn r])
      \<and> persistedHistory (snd (decideAndAct cfg oc ev msg desc st))
          = (persistedHistory st)
              (threadID ev \<mapsto> chat_history (snd (decideAndAct cfg oc ev msg desc st)) (threadID ev))
      \<and> snapshot (snd (decideAndAct cfg oc ev msg desc st))
          = (if PERSISTENCE_ENABLED cfg
             then persistedHistory (snd (decideAndAct cfg oc ev msg desc st))
             else snapshot st))
   \<and> ((getReplyAction cfg (action_draw oc) = REACTION \<and> chat_answer oc = Inl err)
       \<or> (getReplyAction cfg (action_draw oc) = MESSAGE
           \<and> (chat_answer oc = Inl err \<or> chat_answer oc = Inr None)) \<longrightarrow>
      fst (decideAndAct cfg oc ev msg desc st) = Inr ()
      \<and> persistedHistory (snd (decideAndAct cfg oc ev msg desc st)) = persistedHistory st
      \<and> snapshot (snd (decideAndAct cfg oc ev msg desc st)) = snapshot st
      \<and> (getReplyAction cfg (action_draw oc) = MESSAGE \<longrightarrow>
            SendMessage apology (threadID ev)
              \<in> set (calls (snd (decideAndAct cfg oc ev msg desc st)))))
   \<and> (\<not> (senderID t \<in> set (ADMIN_UIDS cfg1) \<and> trim (body t) = ''!history reset'')
       \<and> \<not> gate_draw oc1 > RESPONSE_PROBABILITY cfg1
       \<and> filter_result oc1 = Inr txt
       \<and> (filterAction txt = ''IGNORE''
           \<or> (filterAction txt = ''REACTION'' \<and> reaction_result oc1 = Inr ())) \<longrightarrow>
      (\<forall>k. history_of (processMessageWithGemini cfg1 oc1 t st1) k = history_of st1 k)
      \<and> snapshot (processMessageWithGemini cfg1 oc1 t st1) = snapshot st1)"
proof -
  have ignore: "getReplyAction cfg (action_draw oc) = IGNORE \<and> chat_answer oc = Inr r \<longrightarrow>
      fst (decideAndAct cfg oc ev msg desc st) = Inr ()
      \<and> chat_history (snd (decideAndAct cfg oc ev msg desc st)) (threadID ev)
          = chat_history st (threadID ev) @ [user_turn (msg @ desc), answer_turn r]
      \<and> calls (snd (decideAndAct cfg oc ev msg desc st))
          = calls st @ [ChatSendMessage (threadID ev) (msg @ desc)]"
    using ignoreBranch_resolved [of oc r cfg ev msg desc st] by (simp add: decideAndAct_def)
  have resolved: "chat_answer oc = Inr r
      \<and> (getReplyAction cfg (action_draw oc) = MESSAGE \<longrightarrow> r \<noteq> None) \<longrightarrow>
      fst (decideAndAct cfg oc ev msg desc st) = Inr ()
      \<and> (\<exists>sent. chat_history (snd (decideAndAct cfg oc ev msg desc st)) (threadID ev)
                   = chat_history st (threadID ev) @ [user_turn sent, answer_turn r])
      \<and> persistedHistory (snd (decideAndAct cfg oc ev msg desc st))
          = (persistedHistory st)
              (threadID ev \<mapsto> chat_history (snd (decideAndAct cfg oc ev msg desc st)) (threadID ev))
      \<and> snapshot (snd (decideAndAct cfg oc ev msg desc st))
          = (if PERSISTENCE_ENABLED cfg
             then persistedHistory (snd (decideAndAct cfg oc ev msg desc st))
             else snapshot st)"
  proof (cases "getReplyAction cfg (action_draw oc)")
    case MESSAGE
    show ?thesis
    proof (intro impI)
      assume a: "chat_answer oc = Inr r
        \<and> (getReplyAction cfg (action_draw oc) = MESSAGE \<longrightarrow> r \<noteq> None)"
      with MESSAGE obtain reply where r: "r = Some reply" by auto
      with a have "chat_answer oc = Inr (Some reply)" by simp
      from replyBranch_resolved [OF this, of cfg ev msg desc st] MESSAGE r
      show "fst (decideAndAct cfg oc ev msg desc st) = Inr ()
      \<and> (\<exists>sent. chat_history (snd (decideAndAct cfg oc ev msg desc st)) (threadID ev)
                   = chat_history st (threadID ev) @ [user_turn sent, answer_turn r])
      \<and> persistedHistory (snd (decideAndAct cfg oc ev msg desc st))
          = (persistedHistory st)
              (threadID ev \<mapsto> chat_history (snd (decideAndAct cfg oc ev msg desc st)) (threadID ev))
      \<and> snapshot (snd (decideAndAct cfg oc ev msg desc st))
          = (if PERSISTENCE_ENABLED cfg
             then persistedHistory (snd (decideAndAct cfg oc ev msg desc st))
             else snapshot st)"
        by (simp add: decideAndAct_def) blast
    qed
  next
    case REACTION
    with reactionBranch_resolved [of oc r cfg ev msg desc st] show ?thesis
      by (simp add: decideAndAct_def) blast
  next
    case IGNORE
    with ignoreBranch_resolved [of oc r cfg ev msg desc st] show ?thesis
      by (simp add: decideAndAct_def) blast
  qed
  have failed: "(getReplyAction cfg (action_draw oc) = REACTION \<and> chat_answer oc = Inl err)
       \<or> (getReplyAction cfg (action_draw oc) = MESSAGE
           \<and> (chat_answer oc = Inl err \<or> chat_answer oc = Inr None)) \<longrightarrow>
      fst (decideAndAct cfg oc ev msg desc st) = Inr ()
      \<and> persistedHistory (snd (decideAndAct cfg oc ev msg desc st)) = persistedHistory st
      \<and> snapshot (snd (decideAndAct cfg oc ev msg desc st)) = snapshot st
      \<and> (getReplyAction cfg (action_draw oc) = MESSAGE \<longrightarrow>
            SendMessage apology (threadID ev)
              \<in> set (calls (snd (decideAndAct cfg oc ev msg desc st))))"
    using reactionBranch_rejected [of oc err cfg ev msg desc st]
      replyBranch_failed [of oc err cfg ev msg desc st]
    by (auto simp add: decideAndAct_def)
  have first: "\<not> (senderID t \<in> set (ADMIN_UIDS cfg1) \<and> trim (body t) = ''!history reset'')
       \<and> \<not> gate_draw oc1 > RESPONSE_PROBABILITY cfg1
       \<and> filter_result oc1 = Inr txt
       \<and> (filterAction txt = ''IGNORE''
           \<or> (filterAction txt = ''REACTION'' \<and> reaction_result oc1 = Inr ())) \<longrightarrow>
      (\<forall>k. history_of (processMessageWithGemini cfg1 oc1 t st1) k = history_of st1 k)
      \<and> snapshot (processMessageWithGemini cfg1 oc1 t st1) = snapshot st1"
    using verdict_ignore_keeps_history [of t cfg1 oc1 _ st1]
      verdict_reaction_keeps_history [of t cfg1 oc1 _ st1]
    by blast
  from ignore resolved failed first show ?thesis by (intro conjI)
qed

theorem decide_stage_persists_after_chat_call_witness:
  "getReplyAction (example_config2 ''gemini'')
     (action_draw (example_outcomes2 (Inr ''no'') (7 / 8) (Inr ''ok''))) = IGNORE
   \<and> chat_answer (example_outcomes2 (Inr ''no'') (7 / 8) (Inr ''ok'')) = Inr (Some ''ok'')
   \<and> PERSISTENCE_ENABLED (example_config2 ''gemini'')
   \<and> fst (decideAndAct (example_config2 ''gemini'') (example_outcomes2 (Inr ''no'') (7 / 8) (Inr ''ok''))
            (example_event ''t1'' ''hey Gemini'' []) ''hey Gemini'' [] initial_state2) = Inr ()
   \<and> chat_history
        (snd (decideAndAct (example_config2 ''gemini'') (example_outcomes2 (Inr ''no'') (7 / 8) (Inr ''ok''))
            (example_event ''t1'' ''hey Gemini'' []) ''hey Gemini'' [] initial_state2)) ''t1''
       = [user_turn ''hey Gemini'', model_turn ''ok'']
   \<and> persistedHistory
        (snd (decideAndAct (example_config2 ''gemini'') (example_outcomes2 (Inr ''no'') (7 / 8) (Inr ''ok''))
            (example_event ''t1'' ''hey Gemini'' []) ''hey Gemini'' [] initial_state2)) ''t1''
       = Some [user_turn ''hey Gemini'', model_turn ''ok'']
   \<and> snapshot
        (snd (decideAndAct (example_config2 ''gemini'') (example_outcomes2 (Inr ''no'') (7 / 8) (Inr ''ok''))
            (example_event ''t1'' ''hey Gemini'' []) ''hey Gemini'' [] initial_state2)) ''t1''
       = Some [user_turn ''hey Gemini'', model_turn ''ok'']
   \<and> calls
        (snd (decideAndAct (example_config2 ''gemini'') (example_outcomes2 (Inr ''no'') (7 / 8) (Inr ''ok''))
            (example_event ''t1'' ''hey Gemini'' []) ''hey Gemini'' [] initial_state2))
       = [ChatSendMessage ''t1'' ''hey Gemini'']
   \<and> filterAction (Some ''Ignore.'') = ''IGNORE''
   \<and> history_of (processMessageWithGemini example_config1 (verdict_outcomes ''Ignore.'')
                   (example_task ''c'') after_two_tasks) ''t1''
       = history_of after_two_tasks ''t1''
   \<and> snapshot (processMessageWithGemini example_config1 (verdict_outcomes ''Ignore.'')
                 (example_task ''c'') after_two_tasks)
       = snapshot after_two_tasks
   \<and> getReplyAction (example_config2 ''gemini'')
        (action_draw (example_outcomes2 (Inr ''no'') (1 / 8) (Inl (Error ''503'')))) = MESSAGE
   \<and> chat_answer (example_outcomes2 (Inr ''no'') (1 / 8) (Inl (Error ''503''))) = Inl (Error ''503'')
   \<and> fst (decideAndAct (example_config2 ''gemini'')
            (example_outcomes2 (Inr ''no'') (1 / 8) (Inl (Error ''503'')))
            (example_event ''t1'' ''hey Gemini'' []) ''hey Gemini'' [] restarted_state2) = Inr ()
   \<and> persistedHistory
        (snd (decideAndAct (example_config2 ''gemini'')
            (example_outcomes2 (Inr ''no'') (1 / 8) (Inl (Error ''503'')))
            (example_event ''t1'' ''hey Gemini'' []) ''hey Gemini'' [] restarted_state2))
       = persistedHistory restarted_state2
   \<and> snapshot
        (snd (decideAndAct (example_config2 ''gemini'')
            (example_outcomes2 (Inr ''no'') (1 / 8) (Inl (Error ''503'')))
            (example_event ''t1'' ''hey Gemini'' []) ''hey Gemini'' [] restarted_state2))
       = snapshot restarted_state2
   \<and> SendMessage apology ''t1''
       \<in> set (calls (snd (decideAndAct (example_config2 ''gemini'')
            (example_outcomes2 (Inr ''no'') (1 / 8) (Inl (Error ''503'')))
            (example_event ''t1'' ''hey Gemini'' []) ''hey Gemini'' [] restarted_state2)))"
proof -
  let ?cfg = "example_config2 ''gemini''"
  let ?oc = "example_outcomes2 (Inr ''no'') (7 / 8) (Inr ''ok'')"
  let ?oc3 = "example_outcomes2 (Inr ''no'') (1 / 8) (Inl (Error ''503''))"
  let ?ev = "example_event ''t1'' ''hey Gemini'' []"
  let ?t = "example_task ''c''"
  let ?oc1 = "verdict_outcomes ''Ignore.''"
  have a: "getReplyAction ?cfg (action_draw ?oc) = IGNORE"
    by (simp add: run2)
  have b: "chat_answer ?oc = Inr (Some ''ok'')"
    by (simp add: example_outcomes2_def)
  have c: "PERSISTENCE_ENABLED ?cfg"
    by (simp add: example_config2_def)
  have e: "threadID ?ev = ''t1''"
    by (simp add: example_event_def)
  have h: "chat_history initial_state2 ''t1'' = []" and k: "calls initial_state2 = []"
    and p: "persistedHistory initial_state2 = Map.empty"
    by (simp_all add: chat_history_def initial_state2_def)
  have m: "answer_turn (Some ''ok'') = model_turn ''ok''"
    by (simp add: answer_turn_def model_turn_def)
  have f1: "\<not> (senderID ?t \<in> set (ADMIN_UIDS example_config1) \<and> trim (body ?t) = ''!history reset'')"
    by (simp add: example_task_def example_config1_def)
  have f2: "\<not> gate_draw ?oc1 > RESPONSE_PROBABILITY example_config1"
    by (simp add: verdict_outcomes_def example_config1_def)
  have f3: "filter_result ?oc1 = Inr (Some ''Ignore.'')"
    by (simp add: verdict_outcomes_def)
  have f4: "filterAction (Some ''Ignore.'') = ''IGNORE''"
    by code_simp
  note main = decide_stage_persists_after_chat_call
    [of ?cfg ?oc "Some ''ok''" ?ev "''hey Gemini''" "[]" initial_state2 "Error ''none''"
        ?t example_config1 ?oc1 "Some ''Ignore.''" after_two_tasks]
  from main a b have second:
    "fst (decideAndAct ?cfg ?oc ?ev ''hey Gemini'' [] initial_state2) = Inr ()
     \<and> chat_history (snd (decideAndAct ?cfg ?oc ?ev ''hey Gemini'' [] initial_state2)) ''t1''
         = [user_turn ''hey Gemini'', model_turn ''ok'']
     \<and> calls (snd (decideAndAct ?cfg ?oc ?ev ''hey Gemini'' [] initial_state2))
         = [ChatSendMessage ''t1'' ''hey Gemini'']
     \<and> persistedHistory (snd (decideAndAct ?cfg ?oc ?ev ''hey Gemini'' [] initial_state2)) ''t1''
         = Some [user_turn ''hey Gemini'', model_turn ''ok'']
     \<and> snapshot (snd (decideAndAct ?cfg ?oc ?ev ''hey Gemini'' [] initial_state2)) ''t1''
         = Some [user_turn ''hey Gemini'', model_turn ''ok'']"
    by (simp add: e h k p c m)
  from main f1 f2 f3 f4 have first:
    "history_of (processMessageWithGemini example_config1 ?oc1 ?t after_two_tasks) ''t1''
       = history_of after_two_tasks ''t1''
     \<and> snapshot (processMessageWithGemini example_config1 ?oc1 ?t after_two_tasks)
         = snapshot after_two_tasks"
    by blast
  have a3: "getReplyAction ?cfg (action_draw ?oc3) = MESSAGE"
    by (simp add: run2)
  have b3: "chat_answer ?oc3 = Inl (Error ''503'')"
    by (simp add: example_outcomes2_def)
  note main3 = decide_stage_persists_after_chat_call
    [of ?cfg ?oc3 "Some ''ok''" ?ev "''hey Gemini''" "[]" restarted_state2 "Error ''503''"
        ?t example_config1 ?oc1 "Some ''Ignore.''" after_two_tasks]
  from main3 a3 b3 have third:
    "fst (decideAndAct ?cfg ?oc3 ?ev ''hey Gemini'' [] restarted_state2) = Inr ()
     \<and> persistedHistory (snd (decideAndAct ?cfg ?oc3 ?ev ''hey Gemini'' [] restarted_state2))
         = persistedHistory restarted_state2
     \<and> snapshot (snd (decideAndAct ?cfg ?oc3 ?ev ''hey Gemini'' [] restarted_state2))
         = snapshot restarted_state2
     \<and> SendMessage apology ''t1''
         \<in> set (calls (snd (decideAndAct ?cfg ?oc3 ?ev ''hey Gemini'' [] restarted_state2)))"
    by (simp add: e)
  from second first third a b c f4 a3 b3 show ?thesis by simp
qed




text \<open>
  Claim C5, at an input where the code departs from it. The bot is configured with the
  name \<open>Gemini\<close> and the message \<open>hey Gemini\<close> contains that name. Line 374 lower-cases the
  message but not the name, and \<open>hey gemini\<close> does not contain \<open>Gemini\<close>: the message is
  not taken as addressed, the classifier is consulted, and on its answer \<open>No\<close> the respond
  decision is false, so the decision stage is not reached.
\<close>

theorem capitalised_bot_name_is_never_matched:
  "str_includes ''hey Gemini'' (BOT_NAME (example_config2 ''Gemini''))
   \<and> fst (respondDecision (example_config2 ''Gemini'')
            (example_outcomes2 (Inr ''No'') (1 / 10) (Inr ''ok''))
            ''hey Gemini'' False ''hey Gemini'' initial_state2) = False
   \<and> map is_classifier_call
        (calls (snd (processMessage (example_config2 ''Gemini'')
            (example_outcomes2 (Inr ''No'') (1 / 10) (Inr ''ok''))
            (example_event ''t1'' ''hey Gemini'' []) initial_state2))) = [True]
   \<and> fst (respondDecision (example_config2 ''gemini'')
            (example_outcomes2 (Inr ''No'') (1 / 10) (Inr ''ok''))
            ''hey Gemini'' False ''hey Gemini'' initial_state2) = True"
  by code_simp

text \<open>
  Claim C6 as stated fails. The weights \<open>0.7\<close> and \<open>0.1\<close> are non-negative and leave the
  non-negative remainder to 1 for the ignore weight. The draw \<open>0.7999999999999999\<close> lies
  in the second segment \<open>[reply, reply + react)\<close>, but line 279 compares it with the sum of
  the two doubles, which is rounded to this very number: the comparison is false and the
  action is \<^verbatim>\<open>IGNORE\<close>, in both forms of the function. The second segment of the code ends
  at the rounded sum, so its measure is not the weight \<open>react\<close>.
\<close>

theorem rounded_sum_moves_segment_boundary:
  "0 \<le> PROBABILITIES_REPLY rounding_config2
   \<and> 0 \<le> PROBABILITIES_REACT rounding_config2
   \<and> 0 \<le> 1 - (PROBABILITIES_REPLY rounding_config2 + PROBABILITIES_REACT rounding_config2)
   \<and> (0 :: real) \<le> 7205759403792793 / 2 ^ 53
   \<and> (7205759403792793 / 2 ^ 53 :: real) < 1
   \<and> (7205759403792793 / 2 ^ 53 :: real)
       \<in> {PROBABILITIES_REPLY rounding_config2
           ..< PROBABILITIES_REPLY rounding_config2 + PROBABILITIES_REACT rounding_config2}
   \<and> double_add (PROBABILITIES_REPLY rounding_config2) (PROBABILITIES_REACT rounding_config2)
       = 7205759403792793 / 2 ^ 53
   \<and> getReplyAction rounding_config2 (7205759403792793 / 2 ^ 53) = IGNORE
   \<and> getReplyAction3 (PROBABILITIES_REPLY rounding_config2)
        (PROBABILITIES_REACT rounding_config2) (7205759403792793 / 2 ^ 53) = IGNORE"
proof -
  have p: "PROBABILITIES_REPLY rounding_config2 = 3152519739159347 / 2 ^ 52"
    by (simp add: rounding_config2_def example_config2_def double_0_7)
  have q: "PROBABILITIES_REACT rounding_config2 = 3602879701896397 / 2 ^ 55"
    by (simp add: rounding_config2_def example_config2_def double_0_1)
  have s: "double_add (PROBABILITIES_REPLY rounding_config2) (PROBABILITIES_REACT rounding_config2)
             = 7205759403792793 / 2 ^ 53"
    unfolding p q by (rule double_sum_0_7_0_1)
  have d: "double_of_real (PROBABILITIES_REPLY rounding_config2)
             = PROBABILITIES_REPLY rounding_config2"
    unfolding p by (rule double_0_7_fixed)
  have weights: "0 \<le> PROBABILITIES_REPLY rounding_config2
     \<and> 0 \<le> PROBABILITIES_REACT rounding_config2
     \<and> 0 \<le> 1 - (PROBABILITIES_REPLY rounding_config2 + PROBABILITIES_REACT rounding_config2)"
    unfolding p q by simp
  have draw: "(0 :: real) \<le> 7205759403792793 / 2 ^ 53 \<and> (7205759403792793 / 2 ^ 53 :: real) < 1"
    by simp
  have inside: "(7205759403792793 / 2 ^ 53 :: real)
       \<in> {PROBABILITIES_REPLY rounding_config2
           ..< PROBABILITIES_REPLY rounding_config2 + PROBABILITIES_REACT rounding_config2}"
    unfolding p q by simp
  have a: "getReplyAction rounding_config2 (7205759403792793 / 2 ^ 53) = IGNORE"
    by (simp only: getReplyAction_def s) (simp add: p)
  have b: "getReplyAction3 (PROBABILITIES_REPLY rounding_config2)
        (PROBABILITIES_REACT rounding_config2) (7205759403792793 / 2 ^ 53) = IGNORE"
    using getReplyAction3_eq [OF d] a by simp
  from weights draw inside s a b show ?thesis by (simp only: simp_thms)
qed

text \<open>
  Claim C6, amended. Let the weights \<open>reply\<close> and \<open>react\<close> be non-negative doubles with
  \<open>reply + react \<le> 1\<close>, the ignore weight being the remainder, and let \<open>s\<close> be the sum of
  \<open>reply\<close> and \<open>react\<close> as line 279 computes it, in double arithmetic. Then
  \<open>reply \<le> s \<le> 1\<close>, and for every draw \<open>r\<close> in \<open>[0, 1)\<close> \<^verbatim>\<open>getReplyAction\<close> returns
  \<^verbatim>\<open>MESSAGE\<close> exactly when \<open>r\<close> falls in \<open>[0, reply)\<close>, \<^verbatim>\<open>REACTION\<close> exactly when \<open>r\<close> falls in
  \<open>[reply, s)\<close> and \<^verbatim>\<open>IGNORE\<close> exactly when \<open>r\<close> falls in \<open>[s, 1)\<close>: a three-way partition
  of \<open>[0, 1)\<close>. The first segment has the length \<open>reply\<close>; \<open>s\<close> differs from \<open>reply + react\<close>
  by at most \<open>1 / 2 ^ 54\<close>, and so do the lengths of the other two segments from \<open>react\<close> and
  from the ignore weight. The cumulative form of the third variant returns the same
  action.
\<close>

theorem getReplyAction_partitions_unit_interval:
  assumes "0 \<le> r" and "r < 1"
    and "0 \<le> PROBABILITIES_REPLY cfg" and "0 \<le> PROBABILITIES_REACT cfg"
    and "PROBABILITIES_REPLY cfg + PROBABILITIES_REACT cfg \<le> 1"
    and "double_of_real (PROBABILITIES_REPLY cfg) = PROBABILITIES_REPLY cfg"
  shows "(getReplyAction cfg r = MESSAGE \<longleftrightarrow> r \<in> {0 ..< PROBABILITIES_REPLY cfg})
     \<and> (getReplyAction cfg r = REACTION \<longleftrightarrow>
          r \<in> {PROBABILITIES_REPLY cfg
                ..< double_add (PROBABILITIES_REPLY cfg) (PROBABILITIES_REACT cfg)})
     \<and> (getReplyAction cfg r = IGNORE \<longleftrightarrow>
          r \<in> {double_add (PROBABILITIES_REPLY cfg) (PROBABILITIES_REACT cfg) ..< 1})
     \<and> PROBABILITIES_REPLY cfg \<le> double_add (PROBABILITIES_REPLY cfg) (PROBABILITIES_REACT cfg)
     \<and> double_add (PROBABILITIES_REPLY cfg) (PROBABILITIES_REACT cfg) \<le> 1
     \<and> \<bar>double_add (PROBABILITIES_REPLY cfg) (PROBABILITIES_REACT cfg)
          - (PROBABILITIES_REPLY cfg + PROBABILITIES_REACT cfg)\<bar> \<le> 1 / 2 ^ 54
     \<and> \<bar>(double_add (PROBABILITIES_REPLY cfg) (PROBABILITIES_REACT cfg) - PROBABILITIES_REPLY cfg)
          - PROBABILITIES_REACT cfg\<bar> \<le> 1 / 2 ^ 54
     \<and> \<bar>(1 - double_add (PROBABILITIES_REPLY cfg) (PROBABILITIES_REACT cfg))
          - (1 - PROBABILITIES_REPLY cfg - PROBABILITIES_REACT cfg)\<bar> \<le> 1 / 2 ^ 54
     \<and> getReplyAction3 (PROBABILITIES_REPLY cfg) (PROBABILITIES_REACT cfg) r
         = getReplyAction cfg r"
proof -
  define s where "s = double_add (PROBABILITIES_REPLY cfg) (PROBABILITIES_REACT cfg)"
  have sum: "0 \<le> PROBABILITIES_REPLY cfg + PROBABILITIES_REACT cfg"
    using assms(3,4) by simp
  have "double_of_real (PROBABILITIES_REPLY cfg) \<le> s"
    unfolding s_def double_add_def using assms(3,4) by (intro double_of_real_mono) simp_all
  then have lo: "PROBABILITIES_REPLY cfg \<le> s" by (simp only: assms(6))
  have "s \<le> double_of_real 1"
    unfolding s_def double_add_def using sum assms(5) by (intro double_of_real_mono)
  then have hi: "s \<le> 1" by (simp only: double_of_real_one)
  have err: "\<bar>s - (PROBABILITIES_REPLY cfg + PROBABILITIES_REACT cfg)\<bar> \<le> 1 / 2 ^ 54"
    unfolding s_def double_add_def using sum assms(5) by (rule double_of_real_error)
  have act: "getReplyAction cfg r =
      (if r < PROBABILITIES_REPLY cfg then MESSAGE else if r < s then REACTION else IGNORE)"
    by (simp add: getReplyAction_def s_def)
  have m: "getReplyAction cfg r = MESSAGE \<longleftrightarrow> r \<in> {0 ..< PROBABILITIES_REPLY cfg}"
    using assms(1) by (simp add: act)
  have re: "getReplyAction cfg r = REACTION \<longleftrightarrow> r \<in> {PROBABILITIES_REPLY cfg ..< s}"
    by (auto simp add: act)
  have ig: "getReplyAction cfg r = IGNORE \<longleftrightarrow> r \<in> {s ..< 1}"
    using assms(2) lo by (auto simp add: act)
  have e2: "\<bar>(s - PROBABILITIES_REPLY cfg) - PROBABILITIES_REACT cfg\<bar> \<le> 1 / 2 ^ 54"
    using err by (simp add: algebra_simps)
  have e3: "\<bar>(1 - s) - (1 - PROBABILITIES_REPLY cfg - PROBABILITIES_REACT cfg)\<bar> \<le> 1 / 2 ^ 54"
    using err by (simp add: algebra_simps abs_minus_commute)
  note third = getReplyAction3_eq [OF assms(6), of r]
  from m re ig lo hi err e2 e3 third show ?thesis
    unfolding s_def by (intro conjI)
qed

theorem getReplyAction_partitions_unit_interval_witness:
  "(0 :: real) \<le> 5 / 8 \<and> (5 / 8 :: real) < 1
   \<and> 0 \<le> PROBABILITIES_REPLY (example_config2 ''gemini'')
   \<and> 0 \<le> PROBABILITIES_REACT (example_config2 ''gemini'')
   \<and> PROBABILITIES_REPLY (example_config2 ''gemini'')
       + PROBABILITIES_REACT (example_config2 ''gemini'') \<le> 1
   \<and> double_of_real (PROBABILITIES_REPLY (example_config2 ''gemini''))
       = PROBABILITIES_REPLY (example_config2 ''gemini'')
   \<and> double_add (PROBABILITIES_REPLY (example_config2 ''gemini''))
        (PROBABILITIES_REACT (example_config2 ''gemini'')) = 3 / 4
   \<and> getReplyAction (example_config2 ''gemini'') (5 / 8) = REACTION
   \<and> getReplyAction3 (PROBABILITIES_REPLY (example_config2 ''gemini''))
        (PROBABILITIES_REACT (example_config2 ''gemini'')) (5 / 8) = REACTION"
proof -
  let ?cfg = "example_config2 ''gemini''"
  have p: "PROBABILITIES_REPLY ?cfg = 1 / 2" and q: "PROBABILITIES_REACT ?cfg = 1 / 4"
    by (simp_all add: example_config2_def)
  have a3: "0 \<le> PROBABILITIES_REPLY ?cfg" and a4: "0 \<le> PROBABILITIES_REACT ?cfg"
    and a5: "PROBABILITIES_REPLY ?cfg + PROBABILITIES_REACT ?cfg \<le> 1"
    by (simp_all add: p q)
  have a6: "double_of_real (PROBABILITIES_REPLY ?cfg) = PROBABILITIES_REPLY ?cfg"
    unfolding p by (rule double_half)
  have s: "double_add (PROBABILITIES_REPLY ?cfg) (PROBABILITIES_REACT ?cfg) = 3 / 4"
    by (simp add: p q double_add_def double_three_quarters)
  have m: "(5 / 8 :: real) \<in> {PROBABILITIES_REPLY ?cfg
             ..< double_add (PROBABILITIES_REPLY ?cfg) (PROBABILITIES_REACT ?cfg)}"
    unfolding s unfolding p by simp
  from getReplyAction_partitions_unit_interval [of "5 / 8" ?cfg, OF _ _ a3 a4 a5 a6] m
  have "getReplyAction ?cfg (5 / 8) = REACTION
        \<and> getReplyAction3 (PROBABILITIES_REPLY ?cfg) (PROBABILITIES_REACT ?cfg) (5 / 8) = REACTION"
    by simp
  with a3 a4 a5 a6 s show ?thesis by simp
qed

text \<open>
  Claim C7, at an input where the code departs from it. After a restart the history file
  has been loaded, so the self-addressed thread \<open>7\<close> has a stored history of two turns, and
  no chat session exists yet. The reset command of line 326 looks at \<^verbatim>\<open>chatSessions\<close> only:
  it answers that the memory is already clear and deletes nothing. The stored history and
  the history file keep the two turns, and the next message of the thread starts its chat
  session from them.
\<close>

theorem reset_without_session_keeps_history:
  "persistedHistory restarted_state2 ''7'' = Some [user_turn ''hi'', model_turn ''hello'']
   \<and> processMessage (example_config2 ''gemini'') (example_outcomes2 (Inr ''no'') (1 / 10) (Inr ''ok''))
        (example_event ''7'' ''!history reset'' []) restarted_state2
       = (Inr (), record_call (SendMessage already_clear_message ''7'') restarted_state2)
   \<and> persistedHistory
        (snd (processMessage (example_config2 ''gemini'')
                (example_outcomes2 (Inr ''no'') (1 / 10) (Inr ''ok''))
                (example_event ''7'' ''!history reset'' []) restarted_state2)) ''7''
       = Some [user_turn ''hi'', model_turn ''hello'']
   \<and> snapshot
        (snd (processMessage (example_config2 ''gemini'')
                (example_outcomes2 (Inr ''no'') (1 / 10) (Inr ''ok''))
                (example_event ''7'' ''!history reset'' []) restarted_state2)) ''7''
       = Some [user_turn ''hi'', model_turn ''hello'']
   \<and> chat_history
        (getChatSession ''7''
           (snd (processMessage (example_config2 ''gemini'')
                   (example_outcomes2 (Inr ''no'') (1 / 10) (Inr ''ok''))
                   (example_event ''7'' ''!history reset'' []) restarted_state2))) ''7''
       = [user_turn ''hi'', model_turn ''hello'']"
proof -
  have lower: "toLowerCase ''!history reset'' = ''!history reset''"
    by code_simp
  have run: "processMessage (example_config2 ''gemini'')
               (example_outcomes2 (Inr ''no'') (1 / 10) (Inr ''ok''))
               (example_event ''7'' ''!history reset'' []) restarted_state2
             = (Inr (), record_call (SendMessage already_clear_message ''7'') restarted_state2)"
    by (simp add: processMessage_def example_event_def example_config2_def historyReset_def
        restarted_state2_def lower)
  show ?thesis
    unfolding run
    by (simp add: record_call_def restarted_state2_def getChatSession_def chat_history_def)
qed

end
